theory Spec2Isabelle
  imports Complex_Main "HOL-Library.Word" "HOL-Library.Log_Nat"
begin

section \<open>Messages and packets\<close>

text \<open>
  The node of \<^verbatim>\<open>VelodynePostNode.cpp\<close> receives Velodyne data packets from ROS, either
  as structured messages or as snappy-compressed binary blobs, collects them in
  \<^verbatim>\<open>_dataPackets\<close>, and converts every completed batch into one point cloud message.

  A \<^verbatim>\<open>ros::Time\<close> is a pair of unsigned 32-bit counters. \<^verbatim>\<open>toNSec\<close> computes
  \<^verbatim>\<open>(uint64_t)sec * 1000000000ull + (uint64_t)nsec\<close>, which cannot wrap in 64 bits;
  \<^verbatim>\<open>fromNSec\<close> splits a nanosecond count again (for counts of \<open>2^32\<close> seconds and more
  the ROS releases differ; the model truncates as the casts of the 2014 release do).
\<close>

record Time =
  sec :: "32 word"
  nsec :: "32 word"

definition toNSec :: "Time \<Rightarrow> nat" where
  "toNSec t = unat (sec t) * 1000000000 + unat (nsec t)"

definition fromNSec :: "nat \<Rightarrow> Time" where
  "fromNSec t = \<lparr>sec = of_nat (t div 1000000000), nsec = of_nat (t mod 1000000000)\<rparr>"

record Header =
  stamp :: Time
  frame_id :: string

record StampedMsg =
  header :: Header

text \<open>
  The two inbound message shapes. The array lengths of \<^verbatim>\<open>DataPacketMsg\<close> are fixed by
  the message schema (\<open>wf_DataPacketMsg\<close>); the callback reads exactly the indices below
  \<^verbatim>\<open>DataPacket::mDataChunkNbr\<close> and \<^verbatim>\<open>DataPacket::DataChunk::mLasersPerPacket\<close>.
  The field types of the packet classes belong to libvelodyne; distance and intensity
  are the scalars of the specification's data model, and the timestamp of a packet is a
  signed 64-bit count of nanoseconds, which the callbacks set from \<open>toNSec\<close>.
\<close>

record LaserDataMsg =
  distance :: real
  intensity :: real

record DataChunkMsg =
  headerInfo :: "16 word"
  rotationalInfo :: "16 word"
  laserData :: "LaserDataMsg list"

record DataPacketMsg = StampedMsg +
  dataChunks :: "DataChunkMsg list"
  spinCount :: "16 word"
  reserved :: "32 word"

record BinarySnappyMsg = StampedMsg +
  data :: "8 word list"

record LaserData =
  mDistance :: real
  mIntensity :: real

record DataChunk =
  mHeaderInfo :: "16 word"
  mRotationalInfo :: "16 word"
  mLaserData :: "LaserData list"

record DataPacket =
  mData :: "DataChunk list"
  mTimestamp :: int
  mSpinCount :: "16 word"
  mReserved :: "32 word"

definition mDataChunkNbr :: nat where
  "mDataChunkNbr = 12"

definition mLasersPerPacket :: nat where
  "mLasersPerPacket = 32"

definition wf_DataPacketMsg :: "DataPacketMsg \<Rightarrow> bool" where
  "wf_DataPacketMsg msg =
     (length (dataChunks msg) = mDataChunkNbr \<and>
      list_all (\<lambda>c. length (laserData c) = mLasersPerPacket) (dataChunks msg))"

text \<open>The points of a \<^verbatim>\<open>VdynePointCloud\<close> and the outbound \<^verbatim>\<open>sensor_msgs::PointCloud\<close>.
  A \<^verbatim>\<open>geometry_msgs::Point32\<close> is its three coordinates x, y, z; a
  \<^verbatim>\<open>sensor_msgs::ChannelFloat32\<close> is its name and its values. The final re-encoding
  by \<^verbatim>\<open>convertPointCloudToPointCloud2\<close> (a ROS library function that keeps header, points
  and channels) is not modelled: the outbound message is the \<^verbatim>\<open>PointCloud\<close> handed to it.\<close>

record Point3D =
  mX :: real
  mY :: real
  mZ :: real
  mIntensity :: real

datatype Point32 = Point32 real real real

datatype ChannelFloat32 = ChannelFloat32 string "real list"

record PointCloud = StampedMsg +
  points :: "Point32 list"
  channels :: "ChannelFloat32 list"

section \<open>External collaborators\<close>

text \<open>
  Functions of libsnappy, libvelodyne and the C++ library that the node calls. They are
  not part of this repository and are parameters of the model.

  \<^item> \<open>Uncompress\<close>: \<^verbatim>\<open>snappy::Uncompress\<close>, returning its success flag and the contents
    it leaves in the output string.
  \<^item> \<open>readBinary\<close>: the packet that \<^verbatim>\<open>DataPacket dataPacket; dataPacket.readBinary(stream)\<close>
    leaves, as a function of the stream's bytes.
  \<^item> \<open>loadCalibration\<close>, \<open>defaultCalibration\<close>: see the constructor.
  \<^item> \<open>convertSingleReturn\<close>: see \<open>toPointCloud\<close>.
  \<^item> \<open>max_size\<close>: \<^verbatim>\<open>std::vector<DataPacket>::max_size()\<close>.
  \<^item> \<open>allocate k\<close>: whether the allocator provides the storage for \<open>k\<close> packets when
    \<^verbatim>\<open>reserve\<close> asks for it.
\<close>

record 'cal externals =
  Uncompress :: "8 word list \<Rightarrow> bool \<times> 8 word list"
  readBinary :: "8 word list \<Rightarrow> DataPacket"
  loadCalibration :: "string \<Rightarrow> string + 'cal"
  defaultCalibration :: 'cal
  convertSingleReturn :: "LaserData \<Rightarrow> 16 word \<Rightarrow> 'cal \<Rightarrow> Point3D"
  max_size :: nat
  allocate :: "nat \<Rightarrow> bool"

text \<open>
  Modelled from the spec: \<^verbatim>\<open>Converter::toPointCloud\<close> of libvelodyne is not under src/.
  Section 4.3 of the specification: every laser return of every chunk of the packet, in
  chunk order then laser order, is mapped through the calibration model to a point, and
  is included iff \<open>minDistance \<le> rawDistance \<le> maxDistance\<close>; the points are added to
  the cloud passed in. The mapping of one return is \<open>convertSingleReturn\<close> (section 6).
\<close>

definition toPointCloud ::
  "'cal externals \<Rightarrow> DataPacket \<Rightarrow> 'cal \<Rightarrow> Point3D list \<Rightarrow> real \<Rightarrow> real \<Rightarrow> Point3D list" where
  "toPointCloud ext dataPacket cal pointCloud minD maxD =
     pointCloud @
     concat (map (\<lambda>chunk.
                map (\<lambda>l. convertSingleReturn ext l (mRotationalInfo chunk) cal)
                  (filter (\<lambda>l. minD \<le> mDistance l \<and> mDistance l \<le> maxD) (mLaserData chunk)))
              (mData dataPacket))"

section \<open>The node\<close>

type_synonym TransportHints = "string list"

definition unreliable :: "TransportHints \<Rightarrow> TransportHints" where
  "unreliable h = h @ [''UDP'']"

definition reliable :: "TransportHints \<Rightarrow> TransportHints" where
  "reliable h = h @ [''TCP'']"

datatype Callback = BinarySnappyCallback | DataPacketCallback

datatype Subscriber = Subscriber string int Callback TransportHints

datatype Publisher = Publisher string int

text \<open>
  The members of \<^verbatim>\<open>VelodynePostNode\<close>. A subscriber or publisher handle that is not
  connected is \<open>None\<close>. A created timer is kept by the rate its period
  \<^verbatim>\<open>1.0 / rate\<close> is computed from. The node handle is the parameter server passed to
  \<open>getParameters\<close>.
\<close>

record 'cal VelodynePostNode =
  subscriptionIsActive :: bool
  calibFileName :: string
  calibration :: 'cal
  transportType :: string
  transportHints :: TransportHints
  pointCloudPublisher :: "Publisher option"
  pointCloudTopicName :: string
  queueDepth :: int
  dataPackets :: "DataPacket list"
  numDataPackets :: int
  frameId :: string
  minDistance :: real
  maxDistance :: real
  deviceName :: string
  velodyneBinarySnappyTopicName :: string
  velodyneDataPacketTopicName :: string
  useBinarySnappy :: bool
  timer :: "real option"
  velodyneBinarySnappySubscriber :: "Subscriber option"
  velodyneDataPacketSubscriber :: "Subscriber option"

subsection \<open>Integer and floating-point conversions\<close>

text \<open>\<^verbatim>\<open>static_cast<size_t>\<close> of an \<^verbatim>\<open>int\<close>, with 64-bit \<^verbatim>\<open>size_t\<close>.\<close>

definition size_t :: "int \<Rightarrow> nat" where
  "size_t i = nat (i mod 2 ^ 64)"

text \<open>
  The timestamp of the outbound message is computed in \<^verbatim>\<open>double\<close>. Every value that
  arises is an integer or half an integer, so the model works on integers:

  \<^item> \<open>round_to_double a\<close> is the \<^verbatim>\<open>double\<close> nearest to the natural number \<open>a\<close> (53-bit
    significand, ties to even); \<open>double_of_int\<close> extends it by sign. It is the result of
    converting an integer to \<^verbatim>\<open>double\<close>, and of adding two integer-valued doubles whose
    exact sum is its argument.
  \<^item> \<open>round_half x\<close> is \<^verbatim>\<open>std::round(x * 0.5)\<close> for an integer-valued double \<open>x\<close>: halving
    is exact, and \<^verbatim>\<open>std::round\<close> rounds halfway cases away from zero.
\<close>

definition round_to_double :: "nat \<Rightarrow> nat" where
  "round_to_double a =
     (if a < 2 ^ 53 then a
      else let q = 2 ^ (floorlog 2 a - 53); m = a div q; r = a mod q
           in if 2 * r < q \<or> (2 * r = q \<and> even m) then m * q else (m + 1) * q)"

definition double_of_int :: "int \<Rightarrow> int" where
  "double_of_int x = (if x < 0 then - int (round_to_double (nat (- x))) else int (round_to_double (nat x)))"

definition round_half :: "int \<Rightarrow> int" where
  "round_half x = (if x < 0 then - ((- x + 1) div 2) else (x + 1) div 2)"

text \<open>
  Undefined behaviour that \<^verbatim>\<open>publish\<close> can reach on a state it must not be called in:
  \<^verbatim>\<open>front()\<close>/\<^verbatim>\<open>back()\<close> of an empty vector, overflow of the signed 64-bit subtraction of
  two timestamps, and conversion of a \<^verbatim>\<open>double\<close> outside the range of \<^verbatim>\<open>uint64_t\<close>.
  \<^verbatim>\<open>publish\<close> returns it as an error value.
\<close>

datatype undefined_behaviour = EmptyVectorAccess | SignedOverflow | FloatToIntegerOutOfRange

text \<open>
  \<^verbatim>\<open>front + std::round((back - front) * 0.5)\<close>, passed to \<^verbatim>\<open>fromNSec(uint64_t)\<close>: the
  difference is taken in \<^verbatim>\<open>int64_t\<close> (the timestamp type of \<^verbatim>\<open>DataPacket\<close>), converted to
  \<^verbatim>\<open>double\<close>, halved and rounded; \<^verbatim>\<open>front\<close> is converted to \<^verbatim>\<open>double\<close> and added; the sum
  is converted to \<^verbatim>\<open>uint64_t\<close>.
\<close>

definition stamp_nsec :: "int \<Rightarrow> int \<Rightarrow> undefined_behaviour + nat" where
  "stamp_nsec front back =
     (let d = back - front in
      if d < - (2 ^ 63) \<or> 2 ^ 63 \<le> d then Inl SignedOverflow
      else let s = double_of_int (double_of_int front + round_half (double_of_int d))
           in if 0 \<le> s \<and> s < 2 ^ 64 then Inr (nat s) else Inl FloatToIntegerOutOfRange)"

subsection \<open>publish\<close>

text \<open>
  \<open>numSubscribers\<close> is what \<^verbatim>\<open>_pointCloudPublisher.getNumSubscribers()\<close> returns when
  \<^verbatim>\<open>publish\<close> asks. The result is \<open>Inr None\<close> for the early return, \<open>Inr (Some m)\<close> when
  \<open>m\<close> is handed to the publisher.
\<close>

definition publish ::
  "'cal externals \<Rightarrow> 32 word \<Rightarrow> 'cal VelodynePostNode \<Rightarrow> undefined_behaviour + PointCloud option" where
  "publish ext numSubscribers n =
     (if numSubscribers = 0 then Inr None
      else
        let pointCloud =
              foldl (\<lambda>pc dp. toPointCloud ext dp (calibration n) pc (minDistance n) (maxDistance n))
                [] (dataPackets n)
        in if dataPackets n = [] then Inl EmptyVectorAccess
           else case stamp_nsec (mTimestamp (hd (dataPackets n))) (mTimestamp (last (dataPackets n))) of
                  Inl ub \<Rightarrow> Inl ub
                | Inr t \<Rightarrow>
                    Inr (Some \<lparr>header = \<lparr>stamp = fromNSec t, frame_id = frameId n\<rparr>,
                               points = map (\<lambda>p. Point32 (mX p) (mY p) (mZ p)) pointCloud,
                               channels = [ChannelFloat32 ''intensity'' (map mIntensity pointCloud)]\<rparr>))"

subsection \<open>The two decode callbacks\<close>

text \<open>The packet each callback builds before it appends.\<close>

definition dataChunk_of_msg :: "DataChunkMsg \<Rightarrow> DataChunk" where
  "dataChunk_of_msg c =
     \<lparr>mHeaderInfo = headerInfo c,
      mRotationalInfo = rotationalInfo c,
      mLaserData = map (\<lambda>j. \<lparr>mDistance = distance (laserData c ! j),
                              LaserData.mIntensity = intensity (laserData c ! j)\<rparr>)
                     [0..<mLasersPerPacket]\<rparr>"

definition dataPacket_of_msg :: "DataPacketMsg \<Rightarrow> DataPacket" where
  "dataPacket_of_msg msg =
     \<lparr>mData = map (\<lambda>i. dataChunk_of_msg (dataChunks msg ! i)) [0..<mDataChunkNbr],
      mTimestamp = int (toNSec (stamp (header msg))),
      mSpinCount = spinCount msg,
      mReserved = reserved msg\<rparr>"

text \<open>The result flag of \<^verbatim>\<open>snappy::Uncompress\<close> is not looked at: only the string it
  filled is used.\<close>

definition dataPacket_of_snappy :: "'cal externals \<Rightarrow> BinarySnappyMsg \<Rightarrow> DataPacket" where
  "dataPacket_of_snappy ext msg =
     (let uncompressedData = snd (Uncompress ext (data msg))
      in (readBinary ext uncompressedData)\<lparr>mTimestamp := int (toNSec (stamp (header msg)))\<rparr>)"

text \<open>
  A callback returns the node it leaves and the calls of \<^verbatim>\<open>publish()\<close> it made, each with
  the contents of \<^verbatim>\<open>_dataPackets\<close> at the call and what the call did. \<open>numSubscribers\<close> is
  the subscriber count of the point cloud topic while the callback runs. Neither callback
  has a \<^verbatim>\<open>try\<close> block or looks at a result of the library calls it makes; the model takes
  these calls as returning.
\<close>

datatype PublishCall = PublishCall (batch: "DataPacket list") (outcome: "undefined_behaviour + PointCloud option")

definition velodyneDataPacketCallback ::
  "'cal externals \<Rightarrow> 32 word \<Rightarrow> DataPacketMsg \<Rightarrow> 'cal VelodynePostNode
     \<Rightarrow> 'cal VelodynePostNode \<times> PublishCall list" where
  "velodyneDataPacketCallback ext numSubscribers msg n =
     (let n1 = n\<lparr>frameId := frame_id (header msg)\<rparr>;
          dataPacket = dataPacket_of_msg msg;
          n2 = n1\<lparr>dataPackets := dataPackets n1 @ [dataPacket]\<rparr>
      in if length (dataPackets n2) = size_t (numDataPackets n2)
         then (n2\<lparr>dataPackets := []\<rparr>, [PublishCall (dataPackets n2) (publish ext numSubscribers n2)])
         else (n2, []))"

definition velodyneBinarySnappyCallback ::
  "'cal externals \<Rightarrow> 32 word \<Rightarrow> BinarySnappyMsg \<Rightarrow> 'cal VelodynePostNode
     \<Rightarrow> 'cal VelodynePostNode \<times> PublishCall list" where
  "velodyneBinarySnappyCallback ext numSubscribers msg n =
     (let n1 = n\<lparr>frameId := frame_id (header msg)\<rparr>;
          dataPacket = dataPacket_of_snappy ext msg;
          n2 = n1\<lparr>dataPackets := dataPackets n1 @ [dataPacket]\<rparr>
      in if length (dataPackets n2) = size_t (numDataPackets n2)
         then (n2\<lparr>dataPackets := []\<rparr>, [PublishCall (dataPackets n2) (publish ext numSubscribers n2)])
         else (n2, []))"

text \<open>One inbound message, for either subscription, and its delivery. The 32-bit count
  paired with a message is the number of subscribers of the point cloud topic while its
  callback runs.\<close>

datatype InboundMsg = Raw DataPacketMsg | Snappy BinarySnappyMsg

fun decode :: "'cal externals \<Rightarrow> InboundMsg \<Rightarrow> DataPacket" where
  "decode ext (Raw msg) = dataPacket_of_msg msg"
| "decode ext (Snappy msg) = dataPacket_of_snappy ext msg"

fun msg_frame_id :: "InboundMsg \<Rightarrow> string" where
  "msg_frame_id (Raw msg) = frame_id (header msg)"
| "msg_frame_id (Snappy msg) = frame_id (header msg)"

fun deliver ::
  "'cal externals \<Rightarrow> 32 word \<times> InboundMsg \<Rightarrow> 'cal VelodynePostNode
     \<Rightarrow> 'cal VelodynePostNode \<times> PublishCall list" where
  "deliver ext (numSubscribers, Raw msg) n = velodyneDataPacketCallback ext numSubscribers msg n"
| "deliver ext (numSubscribers, Snappy msg) n = velodyneBinarySnappyCallback ext numSubscribers msg n"

fun deliver_all ::
  "'cal externals \<Rightarrow> (32 word \<times> InboundMsg) list \<Rightarrow> 'cal VelodynePostNode
     \<Rightarrow> 'cal VelodynePostNode \<times> PublishCall list" where
  "deliver_all ext [] n = (n, [])"
| "deliver_all ext (e # es) n =
     (let (n1, calls1) = deliver ext e n;
          (n2, calls2) = deliver_all ext es n1
      in (n2, calls1 @ calls2))"

subsection \<open>Subscription lifecycle\<close>

text \<open>The calls into the ROS API made by the lifecycle methods.\<close>

datatype RosCall = subscribe string int Callback TransportHints | shutdown Callback

definition initSubscribers :: "'cal VelodynePostNode \<Rightarrow> 'cal VelodynePostNode \<times> RosCall list" where
  "initSubscribers n =
     (if useBinarySnappy n
      then (n\<lparr>velodyneBinarySnappySubscriber :=
                Some (Subscriber (velodyneBinarySnappyTopicName n) (queueDepth n)
                        BinarySnappyCallback (transportHints n)),
              subscriptionIsActive := True\<rparr>,
            [subscribe (velodyneBinarySnappyTopicName n) (queueDepth n)
               BinarySnappyCallback (transportHints n)])
      else (n\<lparr>velodyneDataPacketSubscriber :=
                Some (Subscriber (velodyneDataPacketTopicName n) (queueDepth n)
                        DataPacketCallback (transportHints n)),
              subscriptionIsActive := True\<rparr>,
            [subscribe (velodyneDataPacketTopicName n) (queueDepth n)
               DataPacketCallback (transportHints n)]))"

definition shutdownSubscribers :: "'cal VelodynePostNode \<Rightarrow> 'cal VelodynePostNode \<times> RosCall list" where
  "shutdownSubscribers n =
     (if useBinarySnappy n
      then (n\<lparr>velodyneBinarySnappySubscriber := None, subscriptionIsActive := False\<rparr>,
            [shutdown BinarySnappyCallback])
      else (n\<lparr>velodyneDataPacketSubscriber := None, subscriptionIsActive := False\<rparr>,
            [shutdown DataPacketCallback]))"

text \<open>The timer callback; \<open>numSubscribers\<close> is the count it observes.\<close>

definition updateSubscription ::
  "32 word \<Rightarrow> 'cal VelodynePostNode \<Rightarrow> 'cal VelodynePostNode \<times> RosCall list" where
  "updateSubscription numSubscribers n =
     (if subscriptionIsActive n \<and> numSubscribers = 0 then shutdownSubscribers n
      else if \<not> subscriptionIsActive n \<and> numSubscribers > 0 then initSubscribers n
      else (n, []))"

text \<open>A run of timer ticks, with the calls each tick made.\<close>

fun ticks ::
  "32 word list \<Rightarrow> 'cal VelodynePostNode \<Rightarrow> 'cal VelodynePostNode \<times> RosCall list list" where
  "ticks [] n = (n, [])"
| "ticks (c # cs) n =
     (let (n1, calls) = updateSubscription c n;
          (n2, later) = ticks cs n1
      in (n2, calls # later))"

subsection \<open>Parameters and construction\<close>

datatype XmlRpcValue = XmlRpcBool bool | XmlRpcInt int | XmlRpcDouble real | XmlRpcString string

type_synonym ParamServer = "string \<Rightarrow> XmlRpcValue option"

text \<open>\<^verbatim>\<open>NodeHandle::param<T>(name, var, default)\<close>: the stored value when there is one of
  the requested type (an integer is accepted for a double), the default otherwise.\<close>

definition param_double :: "ParamServer \<Rightarrow> string \<Rightarrow> real \<Rightarrow> real" where
  "param_double nh key dflt =
     (case nh key of Some (XmlRpcDouble v) \<Rightarrow> v | Some (XmlRpcInt i) \<Rightarrow> real_of_int i | _ \<Rightarrow> dflt)"

definition param_string :: "ParamServer \<Rightarrow> string \<Rightarrow> string \<Rightarrow> string" where
  "param_string nh key dflt = (case nh key of Some (XmlRpcString v) \<Rightarrow> v | _ \<Rightarrow> dflt)"

definition param_bool :: "ParamServer \<Rightarrow> string \<Rightarrow> bool \<Rightarrow> bool" where
  "param_bool nh key dflt = (case nh key of Some (XmlRpcBool v) \<Rightarrow> v | _ \<Rightarrow> dflt)"

definition param_int :: "ParamServer \<Rightarrow> string \<Rightarrow> int \<Rightarrow> int" where
  "param_int nh key dflt = (case nh key of Some (XmlRpcInt v) \<Rightarrow> v | _ \<Rightarrow> dflt)"

datatype LogEntry = ROS_WARN string | ROS_ERROR string

definition getParameters ::
  "ParamServer \<Rightarrow> 'cal VelodynePostNode \<Rightarrow> 'cal VelodynePostNode \<times> LogEntry list" where
  "getParameters nh n =
     (let n1 = n\<lparr>minDistance := param_double nh ''sensor/min_distance'' 0.9\<rparr>;
          n2 = n1\<lparr>maxDistance := param_double nh ''sensor/max_distance'' 120.0\<rparr>;
          n3 = n2\<lparr>deviceName := param_string nh ''sensor/device_name'' ''Velodyne HDL-32E''\<rparr>;
          (n4, log) =
            (if deviceName n3 = ''Velodyne HDL-64E S2''
             then (n3\<lparr>calibFileName :=
                        param_string nh ''sensor/calibration_file'' ''conf/calib-HDL-64E.dat''\<rparr>, [])
             else if deviceName n3 = ''Velodyne HDL-32E''
             then (n3\<lparr>calibFileName :=
                        param_string nh ''sensor/calibration_file'' ''conf/calib-HDL-32E.dat''\<rparr>, [])
             else (n3, [ROS_ERROR (''Unknown device: '' @ deviceName n3)]));
          n5 = n4\<lparr>velodyneBinarySnappyTopicName :=
                    param_string nh ''ros/velodyne_binary_snappy_topic_name'' ''/velodyne/binary_snappy''\<rparr>;
          n6 = n5\<lparr>velodyneDataPacketTopicName :=
                    param_string nh ''ros/velodyne_data_packet_topic_name'' ''/velodyne/data_packet''\<rparr>;
          n7 = n6\<lparr>pointCloudTopicName := param_string nh ''ros/point_cloud_topic_name'' ''point_cloud''\<rparr>;
          n8 = n7\<lparr>useBinarySnappy := param_bool nh ''ros/use_binary_snappy'' True\<rparr>;
          n9 = n8\<lparr>queueDepth := param_int nh ''ros/queue_depth'' 100\<rparr>;
          n10 = n9\<lparr>transportType := param_string nh ''ros/transport_type'' ''udp''\<rparr>;
          n11 = (if deviceName n10 = ''Velodyne HDL-64E S2''
                 then n10\<lparr>numDataPackets := param_int nh ''ros/num_data_packets'' 348\<rparr>
                 else if deviceName n10 = ''Velodyne HDL-32E''
                 then n10\<lparr>numDataPackets := param_int nh ''ros/num_data_packets'' 174\<rparr>
                 else n10);
          rate = param_double nh ''ros/subscription_updater_rate'' 1.0
      in (n11\<lparr>timer := Some rate\<rparr>, log))"

text \<open>
  The constructor. \<open>raw\<close> is the storage the object is built in: members of class type
  are default-constructed (empty strings and vectors, unconnected handles, a null
  calibration pointer that the body assigns before any use), \<^verbatim>\<open>_subscriptionIsActive\<close> is
  initialised to false, and the scalar members keep what \<open>raw\<close> holds until
  \<open>getParameters\<close> assigns them.

  Modelled from the spec: the stream extraction \<^verbatim>\<open>calibFile >> *_calibration\<close> of
  libvelodyne is not under src/. Section 6 of the specification gives it as
  \<^verbatim>\<open>loadCalibration(path) -> CalibrationModel | LoadError\<close>: a load either yields a model or
  fails (\<open>Inl\<close>, with the text of the \<^verbatim>\<open>IOException\<close>), and a failed load leaves the
  default-constructed \<^verbatim>\<open>Calibration\<close> as it was made.

  \<^verbatim>\<open>_dataPackets.reserve(_numDataPackets)\<close> on the empty vector (\<open>reserve\<close>): the count is
  converted to \<^verbatim>\<open>size_t\<close>; the call throws \<^verbatim>\<open>std::length_error\<close> when the count exceeds
  \<open>max_size()\<close>, does nothing when it is 0, and otherwise allocates storage for that many
  packets, which throws \<^verbatim>\<open>std::bad_alloc\<close> when the allocator cannot provide it. The
  constructor catches neither. Its result is \<open>Inl\<close> with the exception and the log
  written so far, or \<open>Inr\<close> with the node and the log.
\<close>

datatype exception = length_error | bad_alloc

definition reserve :: "'cal externals \<Rightarrow> int \<Rightarrow> exception option" where
  "reserve ext k =
     (if max_size ext < size_t k then Some length_error
      else if 0 < size_t k \<and> \<not> allocate ext (size_t k) then Some bad_alloc
      else None)"

definition default_members :: "'cal VelodynePostNode \<Rightarrow> 'cal VelodynePostNode" where
  "default_members raw =
     raw\<lparr>subscriptionIsActive := False, calibFileName := [], transportType := [],
         transportHints := [], pointCloudPublisher := None, pointCloudTopicName := [],
         dataPackets := [], frameId := [], deviceName := [],
         velodyneBinarySnappyTopicName := [], velodyneDataPacketTopicName := [],
         timer := None, velodyneBinarySnappySubscriber := None,
         velodyneDataPacketSubscriber := None\<rparr>"

definition VelodynePostNode_ctor ::
  "'cal externals \<Rightarrow> ParamServer \<Rightarrow> 'cal VelodynePostNode
     \<Rightarrow> exception \<times> LogEntry list + 'cal VelodynePostNode \<times> LogEntry list" where
  "VelodynePostNode_ctor ext nh raw =
     (let n0 = default_members raw;
          (n1, log1) = getParameters nh n0;
          (n2, log2) =
            (case loadCalibration ext (calibFileName n1) of
               Inr c \<Rightarrow> (n1\<lparr>calibration := c\<rparr>, [])
             | Inl what \<Rightarrow> (n1\<lparr>calibration := defaultCalibration ext\<rparr>,
                            [ROS_WARN (''IOException: '' @ what)]));
          (n3, log3) =
            (if transportType n2 = ''udp''
             then (n2\<lparr>transportHints := reliable (unreliable [])\<rparr>, [])
             else if transportType n2 = ''tcp''
             then (n2\<lparr>transportHints := unreliable (reliable [])\<rparr>, [])
             else (n2, [ROS_ERROR (''Unknown transport type: '' @ transportType n2)]));
          n4 = n3\<lparr>pointCloudPublisher := Some (Publisher (pointCloudTopicName n3) (queueDepth n3))\<rparr>
      in case reserve ext (numDataPackets n4) of
           Some ex \<Rightarrow> Inl (ex, log1 @ log2 @ log3)
         | None \<Rightarrow> Inr (n4, log1 @ log2 @ log3))"

section \<open>Reference notions and test data\<close>

text \<open>\<^verbatim>\<open>std::round\<close> on the reals: the nearest integer, halfway cases away from zero. It is
  used to state the timestamp formula of the specification, not by the model.\<close>

definition cround :: "real \<Rightarrow> int" where
  "cround x = (if x < 0 then - \<lfloor>- x + 1 / 2\<rfloor> else \<lfloor>x + 1 / 2\<rfloor>)"

text \<open>All raw laser returns of a batch with the rotational position of their chunk, in
  packet order, then chunk order, then laser order.\<close>

definition returns_of :: "DataPacket list \<Rightarrow> (LaserData \<times> 16 word) list" where
  "returns_of ps =
     concat (map (\<lambda>dp. concat (map (\<lambda>chunk. map (\<lambda>l. (l, mRotationalInfo chunk)) (mLaserData chunk))
                                 (mData dp))) ps)"

text \<open>
  Concrete collaborators, storage, parameter servers and messages on which the theorems
  are evaluated. \<open>ext0\<close>: a decompressor that rejects the empty buffer, a deserialiser
  that yields a packet without chunks, a calibration loader that knows one file, and a
  converter that puts the distance on the x axis. \<open>raw0\<close> is storage with leftover
  contents (its packet count is \<open>-1\<close>). \<open>node2\<close> is the node that the constructor builds
  from \<open>raw0\<close> when \<^verbatim>\<open>ros/num_data_packets\<close> is 2 (lemma \<open>ctor_node2\<close>).
  \<open>nh_missing_file_count k\<close> names a calibration file that the loader does not know and
  sets the packet count to \<open>k\<close>. \<open>raw_msg\<close> is a
  well-formed structured message whose returns are all at distance 0, and \<open>pkt\<close> the
  packet decoded from it (lemmas \<open>wf_raw_msg\<close>, \<open>decode_raw_msg\<close>).
\<close>

definition ext0 :: "nat externals" where
  "ext0 =
     \<lparr>Uncompress = (\<lambda>bs. if bs = [] then (False, []) else (True, bs)),
      readBinary = (\<lambda>bs. \<lparr>mData = [], mTimestamp = int (length bs), mSpinCount = 0, mReserved = 0\<rparr>),
      loadCalibration = (\<lambda>path. if path = ''conf/calib-HDL-32E.dat'' then Inr 1 else Inl ''cannot open''),
      defaultCalibration = 0,
      convertSingleReturn = (\<lambda>l rot cal. \<lparr>mX = mDistance l, mY = 0, mZ = 0, mIntensity = LaserData.mIntensity l\<rparr>),
      max_size = 2 ^ 50,
      allocate = (\<lambda>k. k \<le> 2 ^ 20)\<rparr>"

definition raw0 :: "nat VelodynePostNode" where
  "raw0 =
     \<lparr>subscriptionIsActive = True, calibFileName = ''?'', calibration = 7, transportType = ''?'',
      transportHints = [''?''], pointCloudPublisher = None, pointCloudTopicName = ''?'',
      queueDepth = - 3, dataPackets = [], numDataPackets = - 1, frameId = ''?'',
      minDistance = 5, maxDistance = 4, deviceName = ''?'',
      velodyneBinarySnappyTopicName = ''?'', velodyneDataPacketTopicName = ''?'',
      useBinarySnappy = False, timer = None, velodyneBinarySnappySubscriber = None,
      velodyneDataPacketSubscriber = None\<rparr>"

definition nh2 :: ParamServer where
  "nh2 = (\<lambda>key. if key = ''ros/num_data_packets'' then Some (XmlRpcInt 2) else None)"


definition nh_unknown_device :: ParamServer where
  "nh_unknown_device =
     (\<lambda>key. if key = ''sensor/device_name'' then Some (XmlRpcString ''Velodyne VLP-16'') else None)"

definition node2 :: "nat VelodynePostNode" where
  "node2 =
     \<lparr>subscriptionIsActive = False, calibFileName = ''conf/calib-HDL-32E.dat'', calibration = 1,
      transportType = ''udp'', transportHints = [''UDP'', ''TCP''],
      pointCloudPublisher = Some (Publisher ''point_cloud'' 100),
      pointCloudTopicName = ''point_cloud'', queueDepth = 100, dataPackets = [],
      numDataPackets = 2, frameId = [], minDistance = 0.9, maxDistance = 120,
      deviceName = ''Velodyne HDL-32E'',
      velodyneBinarySnappyTopicName = ''/velodyne/binary_snappy'',
      velodyneDataPacketTopicName = ''/velodyne/data_packet'',
      useBinarySnappy = True, timer = Some 1, velodyneBinarySnappySubscriber = None,
      velodyneDataPacketSubscriber = None\<rparr>"

definition raw_msg :: "32 word \<Rightarrow> 32 word \<Rightarrow> string \<Rightarrow> DataPacketMsg" where
  "raw_msg s ns f =
     \<lparr>header = \<lparr>stamp = \<lparr>sec = s, nsec = ns\<rparr>, frame_id = f\<rparr>,
      dataChunks = replicate 12 \<lparr>headerInfo = 0, rotationalInfo = 0,
                      laserData = replicate 32 \<lparr>distance = 0, intensity = 0\<rparr>\<rparr>,
      spinCount = 0, reserved = 0\<rparr>"

definition snappy_msg :: "32 word \<Rightarrow> 32 word \<Rightarrow> string \<Rightarrow> 8 word list \<Rightarrow> BinarySnappyMsg" where
  "snappy_msg s ns f bs = \<lparr>header = \<lparr>stamp = \<lparr>sec = s, nsec = ns\<rparr>, frame_id = f\<rparr>, data = bs\<rparr>"

definition pkt :: "int \<Rightarrow> DataPacket" where
  "pkt t = \<lparr>mData = replicate 12 \<lparr>mHeaderInfo = 0, mRotationalInfo = 0,
                mLaserData = replicate 32 \<lparr>mDistance = 0, LaserData.mIntensity = 0\<rparr>\<rparr>,
            mTimestamp = t, mSpinCount = 0, mReserved = 0\<rparr>"

definition synthetic_packet :: DataPacket where
  "synthetic_packet =
     \<lparr>mData = [\<lparr>mHeaderInfo = 0, mRotationalInfo = 0,
                 mLaserData = [\<lparr>mDistance = 0.5, LaserData.mIntensity = 10\<rparr>,
                               \<lparr>mDistance = 1.0, LaserData.mIntensity = 20\<rparr>,
                               \<lparr>mDistance = 60.0, LaserData.mIntensity = 30\<rparr>,
                               \<lparr>mDistance = 150.0, LaserData.mIntensity = 40\<rparr>]\<rparr>],
      mTimestamp = 1000, mSpinCount = 0, mReserved = 0\<rparr>"

definition es4 :: "(32 word \<times> InboundMsg) list" where
  "es4 = [(0, Raw (raw_msg 0 1000 ''a'')), (1, Snappy (snappy_msg 0 2000 ''b'' [1])),
          (1, Raw (raw_msg 0 3000 ''c'')), (1, Snappy (snappy_msg 0 4000 ''d'' []))]"

definition es_idle :: "(32 word \<times> InboundMsg) list" where
  "es_idle = [(0, Raw (raw_msg 0 1000 ''a'')), (0, Snappy (snappy_msg 0 2000 ''b'' [1]))]"

definition es_demand :: "(32 word \<times> InboundMsg) list" where
  "es_demand = [(1, Raw (raw_msg 0 3000 ''c'')), (2, Raw (raw_msg 0 5000 ''d''))]"

section \<open>Properties of the callbacks\<close>

subsection \<open>One delivery, and runs of deliveries\<close>

text \<open>Both callbacks do the same to the node: store the frame identifier, append the
  decoded packet, and publish and clear when the size equals the configured count.\<close>

lemma deliver_eq:
  "deliver ext (c, m) n =
     (if length (dataPackets n) + 1 = size_t (numDataPackets n)
      then (n\<lparr>frameId := msg_frame_id m, dataPackets := []\<rparr>,
            [PublishCall (dataPackets n @ [decode ext m])
               (publish ext c (n\<lparr>frameId := msg_frame_id m,
                                 dataPackets := dataPackets n @ [decode ext m]\<rparr>))])
      else (n\<lparr>frameId := msg_frame_id m, dataPackets := dataPackets n @ [decode ext m]\<rparr>, []))"
  by (cases m) (simp_all add: velodyneDataPacketCallback_def velodyneBinarySnappyCallback_def Let_def)

lemma deliver_all_append:
  "deliver_all ext (xs @ ys) n =
     (let (n1, calls1) = deliver_all ext xs n;
          (n2, calls2) = deliver_all ext ys n1
      in (n2, calls1 @ calls2))"
  by (induction xs arbitrary: n) (simp_all add: Let_def split: prod.splits)

lemma deliver_all_inv:
  assumes "size_t (numDataPackets n) = k" and "length (dataPackets n) < k"
  shows "concat (map batch (snd (deliver_all ext es n))) @ dataPackets (fst (deliver_all ext es n))
           = dataPackets n @ map (\<lambda>e. decode ext (snd e)) es
         \<and> list_all (\<lambda>c. length (batch c) = k) (snd (deliver_all ext es n))
         \<and> length (dataPackets (fst (deliver_all ext es n))) < k
         \<and> numDataPackets (fst (deliver_all ext es n)) = numDataPackets n"
  using assms
proof (induction es arbitrary: n)
  case Nil
  then show ?case by simp
next
  case (Cons e es)
  obtain c m where e: "e = (c, m)" by (cases e)
  obtain n1 calls1 where d: "deliver ext (c, m) n = (n1, calls1)" by (cases "deliver ext (c, m) n")
  show ?case
  proof (cases "length (dataPackets n) + 1 = k")
    case True
    with d Cons.prems have n1: "n1 = n\<lparr>frameId := msg_frame_id m, dataPackets := []\<rparr>"
      and c1: "calls1 = [PublishCall (dataPackets n @ [decode ext m])
               (publish ext c (n\<lparr>frameId := msg_frame_id m,
                                 dataPackets := dataPackets n @ [decode ext m]\<rparr>))]"
      by (simp_all add: deliver_eq)
    have "size_t (numDataPackets n1) = k" "length (dataPackets n1) < k"
      using n1 Cons.prems True by simp_all
    from Cons.IH[OF this] show ?thesis
      using d e n1 c1 True by (simp add: split_beta)
  next
    case False
    with d Cons.prems have n1: "n1 = n\<lparr>frameId := msg_frame_id m, dataPackets := dataPackets n @ [decode ext m]\<rparr>"
      and c1: "calls1 = []"
      by (simp_all add: deliver_eq)
    have "size_t (numDataPackets n1) = k" "length (dataPackets n1) < k"
      using n1 Cons.prems False by simp_all
    from Cons.IH[OF this] show ?thesis
      using d e n1 c1 by (simp add: split_beta)
  qed
qed

lemma length_concat_batches:
  "list_all (\<lambda>c. length (batch c) = k) cs \<Longrightarrow> length (concat (map batch cs)) = length cs * k"
  by (induction cs) simp_all

lemma deliver_all_count:
  assumes "size_t (numDataPackets n) = k" and "0 < k" and "dataPackets n = []"
  shows "length (snd (deliver_all ext es n)) = length es div k
         \<and> length (dataPackets (fst (deliver_all ext es n))) = length es mod k"
proof -
  let ?calls = "snd (deliver_all ext es n)" and ?acc = "dataPackets (fst (deliver_all ext es n))"
  from assms have pre: "size_t (numDataPackets n) = k" "length (dataPackets n) < k" by simp_all
  from deliver_all_inv[OF pre, of ext es]
  have cat: "concat (map batch ?calls) @ ?acc = dataPackets n @ map (\<lambda>e. decode ext (snd e)) es"
    and all: "list_all (\<lambda>c. length (batch c) = k) ?calls"
    and lt: "length ?acc < k"
    by simp_all
  from cat have "length (concat (map batch ?calls)) + length ?acc = length es"
    using assms(3) by (metis append_Nil length_append length_map)
  with length_concat_batches[OF all] have eq: "length ?calls * k + length ?acc = length es"
    by simp
  from eq lt have "length es div k = length ?calls"
    by (metis div_mult_self3 div_less add.left_neutral assms(2) less_numeral_extra(3) add.commute)
  moreover from eq lt have "length es mod k = length ?acc"
    by (metis mod_mult_self3 mod_less)
  ultimately show ?thesis by simp
qed

lemma deliver_all_fill:
  assumes "size_t (numDataPackets n) = k" and "es \<noteq> []"
    and "length (dataPackets n) + length es = k"
  shows "deliver_all ext es n =
           (n\<lparr>frameId := msg_frame_id (snd (last es)), dataPackets := []\<rparr>,
            [PublishCall (dataPackets n @ map (\<lambda>e. decode ext (snd e)) es)
               (publish ext (fst (last es))
                  (n\<lparr>frameId := msg_frame_id (snd (last es)),
                     dataPackets := dataPackets n @ map (\<lambda>e. decode ext (snd e)) es\<rparr>))])"
  using assms
proof (induction es arbitrary: n)
  case Nil
  then show ?case by simp
next
  case (Cons e es)
  obtain c m where e: "e = (c, m)" by (cases e)
  show ?case
  proof (cases "es = []")
    case True
    with Cons.prems e show ?thesis by (simp add: deliver_eq)
  next
    case False
    let ?n1 = "n\<lparr>frameId := msg_frame_id m, dataPackets := dataPackets n @ [decode ext m]\<rparr>"
    from False Cons.prems have "length (dataPackets n) + 1 \<noteq> size_t (numDataPackets n)"
      by (cases es) auto
    then have d: "deliver ext (c, m) n = (?n1, [])"
      by (simp add: deliver_eq)
    have "size_t (numDataPackets ?n1) = k" "length (dataPackets ?n1) + length es = k"
      using Cons.prems by simp_all
    from Cons.IH[OF this(1) False this(2)] show ?thesis
      using d e False by simp
  qed
qed

lemma deliver_numDataPackets: "numDataPackets (fst (deliver ext e n)) = numDataPackets n"
  by (cases e) (simp add: deliver_eq)



lemma deliver_all_frame:
  "\<exists>f ps. fst (deliver_all ext es n) = n\<lparr>frameId := f, dataPackets := ps\<rparr>"
proof (induction es arbitrary: n)
  case Nil
  have "n = n\<lparr>frameId := frameId n, dataPackets := dataPackets n\<rparr>" by simp
  then show ?case by (metis deliver_all.simps(1) fst_conv)
next
  case (Cons e es)
  obtain c m where e: "e = (c, m)" by (cases e)
  have "\<exists>f1 ps1. fst (deliver ext (c, m) n) = n\<lparr>frameId := f1, dataPackets := ps1\<rparr>"
  proof (cases "length (dataPackets n) + 1 = size_t (numDataPackets n)")
    case True
    then have "fst (deliver ext (c, m) n) = n\<lparr>frameId := msg_frame_id m, dataPackets := []\<rparr>"
      by (simp add: deliver_eq)
    then show ?thesis by blast
  next
    case False
    then have "fst (deliver ext (c, m) n)
                 = n\<lparr>frameId := msg_frame_id m, dataPackets := dataPackets n @ [decode ext m]\<rparr>"
      by (simp add: deliver_eq)
    then show ?thesis by blast
  qed
  then obtain f1 ps1 where d: "fst (deliver ext (c, m) n) = n\<lparr>frameId := f1, dataPackets := ps1\<rparr>"
    by blast
  from Cons.IH[of "n\<lparr>frameId := f1, dataPackets := ps1\<rparr>"]
  obtain f ps where
    "fst (deliver_all ext es (n\<lparr>frameId := f1, dataPackets := ps1\<rparr>))
       = n\<lparr>frameId := f1, dataPackets := ps1, frameId := f, dataPackets := ps\<rparr>"
    by auto
  then have "fst (deliver_all ext (e # es) n) = n\<lparr>frameId := f, dataPackets := ps\<rparr>"
    using d e by (simp add: split_beta)
  then show ?case by blast
qed

subsection \<open>Timestamp arithmetic\<close>

text \<open>Rounding to \<^verbatim>\<open>double\<close> is the identity below \<open>2^53\<close>, never crosses a power of two,
  and moves a number below \<open>2^62\<close> by at most 256. Hence the timestamp computation is
  exact below \<open>2^53\<close>; for all timestamps that \<open>toNSec\<close> can produce it is defined, and its
  result is within 641 of the value that the formula has on the integers (three roundings
  to \<^verbatim>\<open>double\<close>, and half of the first one's error once more in \<^verbatim>\<open>std::round\<close>).\<close>

lemma round_to_double_small: "a < 2 ^ 53 \<Longrightarrow> round_to_double a = a"
  by (simp add: round_to_double_def)

lemma floorlog_big:
  assumes "\<not> a < (2::nat) ^ 53"
  shows "53 < floorlog 2 a" "2 ^ (floorlog 2 a - 1) \<le> a" "a < 2 ^ floorlog 2 a"
proof -
  from assms have pos: "0 < a" by (cases "a = 0") simp_all
  from floorlog_bounds[OF pos, of 2] show b1: "2 ^ (floorlog 2 a - 1) \<le> a" and b2: "a < 2 ^ floorlog 2 a"
    by simp_all
  from assms b2 have "(2::nat) ^ 53 < 2 ^ floorlog 2 a" by linarith
  moreover have "(1::nat) < 2" by simp
  ultimately show "53 < floorlog 2 a" by (metis power_less_imp_less_exp)
qed

lemma round_to_double_cases:
  assumes "\<not> a < (2::nat) ^ 53"
  defines "q \<equiv> (2::nat) ^ (floorlog 2 a - 53)"
  shows "round_to_double a = (a div q) * q \<or>
         (round_to_double a = (a div q + 1) * q \<and> 0 < a mod q)"
proof -
  have "0 < q" by (simp add: q_def)
  show ?thesis
  proof (cases "2 * (a mod q) < q \<or> (2 * (a mod q) = q \<and> even (a div q))")
    case True
    with assms(1) have "round_to_double a = (a div q) * q"
      unfolding q_def round_to_double_def Let_def by (simp only: if_False if_True)
    then show ?thesis by simp
  next
    case False
    then have "0 < a mod q" using \<open>0 < q\<close> by (cases "a mod q = 0") auto
    moreover from False assms(1) have "round_to_double a = (a div q + 1) * q"
      unfolding q_def round_to_double_def Let_def by (simp only: if_False)
    ultimately show ?thesis by simp
  qed
qed

lemma round_to_double_ge_pow:
  assumes "2 ^ k \<le> a"
  shows "2 ^ k \<le> round_to_double a"
proof (cases "a < 2 ^ 53")
  case True
  with assms show ?thesis by (simp add: round_to_double_small)
next
  case False
  define e where "e = floorlog 2 a"
  define q where "q = (2::nat) ^ (e - 53)"
  from floorlog_big[OF False] have e: "53 < e" "2 ^ (e - 1) \<le> a" "a < 2 ^ e"
    by (simp_all add: e_def)
  have "e - 1 = 52 + (e - 53)" using e(1) by simp
  then have split: "(2::nat) ^ (e - 1) = 2 ^ 52 * q"
    unfolding q_def by (metis power_add)
  have "q > 0" by (simp add: q_def)
  from e(2) split have "2 ^ 52 * q \<le> a" by simp
  then have "2 ^ 52 \<le> a div q"
    using \<open>q > 0\<close> by (simp add: less_eq_div_iff_mult_less_eq)
  then have "2 ^ 52 * q \<le> (a div q) * q" by simp
  moreover have "(a div q) * q \<le> round_to_double a"
    using round_to_double_cases[OF False] by (auto simp: q_def e_def)
  moreover have "(2::nat) ^ k \<le> 2 ^ (e - 1)"
  proof -
    from assms e(3) have "(2::nat) ^ k < 2 ^ e" by linarith
    then have "k < e" by simp
    then show ?thesis by (simp add: power_increasing)
  qed
  ultimately show ?thesis using split by linarith
qed

lemma round_to_double_le_pow:
  assumes "a \<le> 2 ^ k"
  shows "round_to_double a \<le> 2 ^ k"
proof (cases "a < 2 ^ 53")
  case True
  with assms show ?thesis by (simp add: round_to_double_small)
next
  case False
  define e where "e = floorlog 2 a"
  define q where "q = (2::nat) ^ (e - 53)"
  from floorlog_big[OF False] have e: "53 < e" "2 ^ (e - 1) \<le> a" "a < 2 ^ e"
    by (simp_all add: e_def)
  have "q > 0" by (simp add: q_def)
  from e(2) assms have "(2::nat) ^ (e - 1) \<le> 2 ^ k" by linarith
  then have "e - 1 \<le> k" by simp
  then have "e - 53 \<le> k" by simp
  then obtain t where t: "(2::nat) ^ k = t * q"
    unfolding q_def by (metis le_add_diff_inverse2 power_add)
  from round_to_double_cases[OF False]
  consider "round_to_double a = (a div q) * q"
    | "round_to_double a = (a div q + 1) * q" "0 < a mod q"
    by (auto simp: q_def e_def)
  then show ?thesis
  proof cases
    case 1
    have "(a div q) * q \<le> a" by simp
    with 1 assms show ?thesis by linarith
  next
    case 2
    have "a \<noteq> t * q" using 2(2) by auto
    with assms t have "a < t * q" by simp
    then have "a div q < t" using \<open>q > 0\<close> by (simp add: less_mult_imp_div_less)
    then have "a div q + 1 \<le> t" by simp
    then have "(a div q + 1) * q \<le> t * q" by (rule mult_le_mono1)
    with 2(1) t show ?thesis by simp
  qed
qed

lemma double_of_int_small: "\<bar>x\<bar> < 2 ^ 53 \<Longrightarrow> double_of_int x = x"
  by (auto simp add: double_of_int_def round_to_double_small nat_less_iff)

lemma double_of_int_nonneg: "0 \<le> x \<Longrightarrow> 0 \<le> double_of_int x"
  by (simp add: double_of_int_def)

lemma double_of_int_abs_le_pow:
  assumes "\<bar>x\<bar> \<le> 2 ^ k"
  shows "\<bar>double_of_int x\<bar> \<le> 2 ^ k"
proof -
  have "nat \<bar>x\<bar> \<le> 2 ^ k" using assms by (simp add: nat_le_iff)
  from round_to_double_le_pow[OF this] have "int (round_to_double (nat \<bar>x\<bar>)) \<le> 2 ^ k"
    by (metis of_nat_le_iff of_nat_numeral of_nat_power)
  then show ?thesis by (auto simp add: double_of_int_def abs_if)
qed

lemma round_to_double_half_le:
  assumes "c \<le> a"
  shows "(round_to_double c + 1) div 2 \<le> round_to_double a"
proof (cases "a = 0")
  case True
  with assms show ?thesis by (simp add: round_to_double_small)
next
  case False
  define e where "e = floorlog 2 a"
  from False have pos: "0 < a" by simp
  from floorlog_bounds[OF pos, of 2] have e: "2 ^ (e - 1) \<le> a" "a < 2 ^ e"
    by (simp_all add: e_def)
  have "0 < e" using e(2) pos by (cases e) simp_all
  then have two: "(2::nat) ^ e = 2 * 2 ^ (e - 1)" by (cases e) simp_all
  from assms e(2) have "c \<le> 2 ^ e" by simp
  from round_to_double_le_pow[OF this] have "(round_to_double c + 1) div 2 \<le> (2 ^ e + 1) div 2"
    by (simp add: div_le_mono)
  also have "\<dots> = 2 ^ (e - 1)" unfolding two by simp
  also have "\<dots> \<le> round_to_double a" by (rule round_to_double_ge_pow[OF e(1)])
  finally show ?thesis .
qed

lemma round_half_nonneg: "0 \<le> x \<Longrightarrow> 0 \<le> round_half x"
  by (simp add: round_half_def)

lemma round_half_abs: "\<bar>round_half x\<bar> \<le> (\<bar>x\<bar> + 1) div 2"
  by (simp add: round_half_def)

lemma stamp_sum_nonneg:
  assumes "0 \<le> f" and "0 \<le> b"
  shows "0 \<le> double_of_int f + round_half (double_of_int (b - f))"
proof (cases "f \<le> b")
  case True
  then have "0 \<le> round_half (double_of_int (b - f))"
    by (simp add: round_half_nonneg double_of_int_nonneg)
  with double_of_int_nonneg[OF assms(1)] show ?thesis by simp
next
  case False
  then have neg: "b - f < 0" by simp
  from assms False have "nat (f - b) \<le> nat f" by simp
  from round_to_double_half_le[OF this]
  have "(int (round_to_double (nat (f - b))) + 1) div 2 \<le> int (round_to_double (nat f))"
    by (metis of_nat_le_iff of_nat_Suc of_nat_div of_nat_numeral Suc_eq_plus1 add.commute)
  moreover have "double_of_int (b - f) = - int (round_to_double (nat (f - b)))"
    using neg by (simp add: double_of_int_def)
  moreover have "double_of_int f = int (round_to_double (nat f))"
    using assms(1) by (simp add: double_of_int_def)
  ultimately show ?thesis
    by (simp add: round_half_def)
qed

lemma stamp_nsec_defined:
  assumes "0 \<le> f" and "f < 2 ^ 62" and "0 \<le> b" and "b < 2 ^ 62"
  shows "\<exists>t. stamp_nsec f b = Inr t"
proof -
  let ?d = "b - f"
  let ?sum = "double_of_int f + round_half (double_of_int ?d)"
  have range: "\<not> (?d < - (2 ^ 63) \<or> 2 ^ 63 \<le> ?d)" using assms by simp
  have "\<bar>f\<bar> \<le> 2 ^ 62" using assms by simp
  from double_of_int_abs_le_pow[OF this] have F: "\<bar>double_of_int f\<bar> \<le> 2 ^ 62" .
  have "\<bar>?d\<bar> \<le> 2 ^ 62" using assms by simp
  from double_of_int_abs_le_pow[OF this] have D: "\<bar>double_of_int ?d\<bar> \<le> 2 ^ 62" .
  have "\<bar>round_half (double_of_int ?d)\<bar> \<le> (\<bar>double_of_int ?d\<bar> + 1) div 2"
    by (rule round_half_abs)
  also have "\<dots> \<le> (2 ^ 62 + 1) div 2" using D by (simp add: zdiv_mono1)
  finally have R: "\<bar>round_half (double_of_int ?d)\<bar> \<le> 2 ^ 62" by simp
  from F R have "\<bar>?sum\<bar> \<le> 2 ^ 63" by simp
  from double_of_int_abs_le_pow[OF this] have up: "double_of_int ?sum < 2 ^ 64" by simp
  have low: "0 \<le> double_of_int ?sum"
    by (rule double_of_int_nonneg[OF stamp_sum_nonneg[OF assms(1,3)]])
  from range up low show ?thesis
    unfolding stamp_nsec_def Let_def by (simp only: if_False if_True simp_thms) blast
qed

lemma stamp_nsec_exact:
  assumes "0 \<le> f" and "f < 2 ^ 53" and "0 \<le> b" and "b < 2 ^ 53"
  shows "stamp_nsec f b = Inr (nat (f + round_half (b - f)))"
    and "0 \<le> f + round_half (b - f)" and "f + round_half (b - f) < 2 ^ 53"
proof -
  have d: "double_of_int (b - f) = b - f" using assms by (simp add: double_of_int_small)
  have f: "double_of_int f = f" using assms by (simp add: double_of_int_small)
  show lo: "0 \<le> f + round_half (b - f)" using assms by (simp add: round_half_def) linarith
  show hi: "f + round_half (b - f) < 2 ^ 53" using assms by (simp add: round_half_def) linarith
  from lo hi have s: "double_of_int (f + round_half (b - f)) = f + round_half (b - f)"
    by (simp add: double_of_int_small)
  have range: "\<not> (b - f < - (2 ^ 63) \<or> 2 ^ 63 \<le> b - f)" using assms by simp
  have "f + round_half (b - f) < 2 ^ 64" using hi by simp
  with lo range show "stamp_nsec f b = Inr (nat (f + round_half (b - f)))"
    unfolding stamp_nsec_def Let_def d f s by (simp only: if_False if_True simp_thms)
qed

lemma stamp_nsec_not_empty: "stamp_nsec f b \<noteq> Inl EmptyVectorAccess"
  by (simp add: stamp_nsec_def Let_def)

lemma toNSec_bound: "toNSec t < 2 ^ 62"
proof -
  have "unat (sec t) < 2 ^ 32" "unat (nsec t) < 2 ^ 32"
    using unsigned_less[of "sec t", where 'a = nat] unsigned_less[of "nsec t", where 'a = nat]
    by simp_all
  then show ?thesis by (simp add: toNSec_def)
qed

lemma toNSec_fromNSec:
  assumes "t < 2 ^ 32 * 1000000000"
  shows "toNSec (fromNSec t) = t"
proof -
  from assms have "t div 1000000000 < 2 ^ 32" by simp
  then have s: "unat (of_nat (t div 1000000000) :: 32 word) = t div 1000000000"
    by (simp add: of_nat_inverse)
  have "t mod 1000000000 < 2 ^ 32" by (rule less_trans[of _ 1000000000]) simp_all
  then have n: "unat (of_nat (t mod 1000000000) :: 32 word) = t mod 1000000000"
    by (simp add: of_nat_inverse)
  show ?thesis by (simp add: toNSec_def fromNSec_def s n)
qed

lemma round_half_cround: "round_half d = cround (real_of_int d * 0.5)"
proof -
  have pos: "\<lfloor>real_of_int x * 0.5 + 1 / 2\<rfloor> = (x + 1) div 2" for x :: int
  proof -
    have "real_of_int x * 0.5 + 1 / 2 = real_of_int (x + 1) / real_of_int 2" by simp
    then show ?thesis by (simp only: floor_divide_of_int_eq)
  qed
  show ?thesis
  proof (cases "d < 0")
    case True
    have "- (real_of_int d * 0.5) + 1 / 2 = real_of_int (- d) * 0.5 + 1 / 2" by simp
    then have "\<lfloor>- (real_of_int d * 0.5) + 1 / 2\<rfloor> = (- d + 1) div 2"
      using pos[of "- d"] by simp
    with True show ?thesis by (simp add: round_half_def cround_def)
  next
    case False
    with pos[of d] show ?thesis by (simp add: round_half_def cround_def)
  qed
qed

lemma mTimestamp_decode:
  "0 \<le> mTimestamp (decode ext m)" "mTimestamp (decode ext m) < 2 ^ 62"
proof -
  have "int (toNSec t) < 2 ^ 62" for t
    using toNSec_bound[of t] by (metis of_nat_less_iff of_nat_numeral of_nat_power)
  then show "0 \<le> mTimestamp (decode ext m)" "mTimestamp (decode ext m) < 2 ^ 62"
    by (cases m; simp add: dataPacket_of_msg_def dataPacket_of_snappy_def)+
qed

lemma round_to_double_error:
  assumes "a < 2 ^ 62"
  shows "round_to_double a \<le> a + 256" and "a \<le> round_to_double a + 256"
proof -
  have both: "round_to_double a \<le> a + 256 \<and> a \<le> round_to_double a + 256"
  proof (cases "a < 2 ^ 53")
    case True
    then show ?thesis by (simp add: round_to_double_small)
  next
    case False
    define e where "e = floorlog 2 a"
    define q where "q = (2::nat) ^ (e - 53)"
    have "e \<le> 62" unfolding e_def using assms by (intro floorlog_leI) simp_all
    then have "e - 53 \<le> 9" by simp
    then have "q \<le> 2 ^ 9" unfolding q_def by (intro power_increasing) simp_all
    then have q: "q \<le> 512" by simp
    have "0 < q" by (simp add: q_def)
    then have m: "a mod q < q" by simp
    have a: "a = (a div q) * q + a mod q" by simp
    show ?thesis
    proof (cases "2 * (a mod q) < q \<or> (2 * (a mod q) = q \<and> even (a div q))")
      case True
      with False have r: "round_to_double a = (a div q) * q"
        unfolding q_def e_def round_to_double_def Let_def by (simp only: if_False if_True)
      from True have "2 * (a mod q) \<le> q" by auto
      with q a r m show ?thesis by linarith
    next
      case no: False
      with False have r: "round_to_double a = (a div q + 1) * q"
        unfolding q_def e_def round_to_double_def Let_def by (simp only: if_False)
      then have r': "round_to_double a = (a div q) * q + q" by simp
      from no have "q \<le> 2 * (a mod q)" by auto
      with q a r' m show ?thesis by linarith
    qed
  qed
  from both show "round_to_double a \<le> a + 256" and "a \<le> round_to_double a + 256" by simp_all
qed

lemma double_of_int_error:
  assumes "\<bar>x\<bar> < 2 ^ 62"
  shows "\<bar>double_of_int x - x\<bar> \<le> 256"
proof -
  have "nat \<bar>x\<bar> < 2 ^ 62" using assms by (simp add: nat_less_iff)
  from round_to_double_error[OF this]
  have "int (round_to_double (nat \<bar>x\<bar>)) \<le> \<bar>x\<bar> + 256" "\<bar>x\<bar> \<le> int (round_to_double (nat \<bar>x\<bar>)) + 256"
    by linarith+
  then show ?thesis by (auto simp add: double_of_int_def abs_if split: if_splits)
qed

lemma round_half_bounds: "2 * round_half x \<le> x + 1" "x - 1 \<le> 2 * round_half x"
  by (simp_all add: round_half_def) presburger+

lemma round_half_between:
  "min f b \<le> f + round_half (b - f)" "f + round_half (b - f) \<le> max f b"
  by (simp_all add: round_half_def min_def max_def) presburger+

lemma toNSec_bound_fine: "toNSec t < 4300000000000000000"
proof -
  have "unat (sec t) < 2 ^ 32" "unat (nsec t) < 2 ^ 32"
    using unsigned_less[of "sec t", where 'a = nat] unsigned_less[of "nsec t", where 'a = nat]
    by simp_all
  then show ?thesis by (simp add: toNSec_def)
qed

lemma stamp_nsec_value:
  assumes "0 \<le> f" and "f < 4300000000000000000" and "0 \<le> b" and "b < 4300000000000000000"
  shows "\<exists>s. stamp_nsec f b = Inr s
           \<and> int s = double_of_int (double_of_int f + round_half (double_of_int (b - f)))
           \<and> \<bar>int s - (f + round_half (b - f))\<bar> \<le> 641
           \<and> int s \<le> max f b + 641"
proof -
  let ?d = "b - f"
  let ?sum = "double_of_int f + round_half (double_of_int ?d)"
  let ?S = "double_of_int ?sum"
  let ?e = "f + round_half ?d"
  have range: "\<not> (?d < - (2 ^ 63) \<or> 2 ^ 63 \<le> ?d)" using assms by simp
  have "\<bar>f\<bar> < 2 ^ 62" using assms by simp
  from double_of_int_error[OF this] have F: "\<bar>double_of_int f - f\<bar> \<le> 256" .
  have "\<bar>?d\<bar> < 2 ^ 62" using assms by simp
  from double_of_int_error[OF this] have D: "\<bar>double_of_int ?d - ?d\<bar> \<le> 256" .
  from D round_half_bounds[of "double_of_int ?d"] round_half_bounds[of ?d]
  have R: "\<bar>round_half (double_of_int ?d) - round_half ?d\<bar> \<le> 129" by linarith
  from F R have se: "\<bar>?sum - ?e\<bar> \<le> 385" by linarith
  have e: "0 \<le> ?e" "?e \<le> max f b"
    using round_half_between[of f b] assms by (auto simp add: min_def split: if_splits)
  have low: "0 \<le> ?sum" by (rule stamp_sum_nonneg[OF assms(1,3)])
  from se e assms have "\<bar>?sum\<bar> < 2 ^ 62" by (simp add: max_def split: if_splits)
  from double_of_int_error[OF this] have S: "\<bar>?S - ?sum\<bar> \<le> 256" .
  have S0: "0 \<le> ?S" by (rule double_of_int_nonneg[OF low])
  from S se e assms have up: "?S < 2 ^ 64" by (simp add: max_def split: if_splits)
  from range S0 up have "stamp_nsec f b = Inr (nat ?S)"
    unfolding stamp_nsec_def Let_def by (simp only: if_False if_True simp_thms)
  moreover have "int (nat ?S) = ?S" using S0 by simp
  moreover from S se have "\<bar>?S - ?e\<bar> \<le> 641" by linarith
  moreover from S se e have "?S \<le> max f b + 641" by linarith
  ultimately show ?thesis by (metis (no_types))
qed

lemma mTimestamp_decode_fine:
  "0 \<le> mTimestamp (decode ext m)" "mTimestamp (decode ext m) < 4300000000000000000"
proof -
  have "int (toNSec t) < 4300000000000000000" for t
    using toNSec_bound_fine[of t] by linarith
  then show "0 \<le> mTimestamp (decode ext m)" "mTimestamp (decode ext m) < 4300000000000000000"
    by (cases m; simp add: dataPacket_of_msg_def dataPacket_of_snappy_def)+
qed

subsection \<open>publish\<close>

lemma publish_zero: "publish ext 0 n = Inr None"
  by (simp add: publish_def)

lemma publish_not_empty_access:
  "dataPackets n \<noteq> [] \<Longrightarrow> publish ext c n \<noteq> Inl EmptyVectorAccess"
  using stamp_nsec_not_empty[of "mTimestamp (hd (dataPackets n))" "mTimestamp (last (dataPackets n))"]
  by (auto simp add: publish_def Let_def split: sum.splits)

lemma publish_Some:
  assumes "c \<noteq> 0" and "dataPackets n \<noteq> []"
    and "stamp_nsec (mTimestamp (hd (dataPackets n))) (mTimestamp (last (dataPackets n))) = Inr t"
  shows "publish ext c n =
           Inr (Some \<lparr>header = \<lparr>stamp = fromNSec t, frame_id = frameId n\<rparr>,
                      points = map (\<lambda>p. Point32 (mX p) (mY p) (mZ p))
                        (foldl (\<lambda>pc dp. toPointCloud ext dp (calibration n) pc (minDistance n) (maxDistance n))
                           [] (dataPackets n)),
                      channels = [ChannelFloat32 ''intensity'' (map mIntensity
                        (foldl (\<lambda>pc dp. toPointCloud ext dp (calibration n) pc (minDistance n) (maxDistance n))
                           [] (dataPackets n)))]\<rparr>)"
  using assms by (simp add: publish_def Let_def)

lemma publish_frame_id:
  "publish ext c n = Inr (Some m) \<Longrightarrow> frame_id (header m) = frameId n"
  by (auto simp add: publish_def Let_def split: if_splits sum.splits)

lemma publish_Uncompress_irrelevant:
  "publish (ext\<lparr>Uncompress := u\<rparr>) c n = publish ext c n"
  by (simp add: publish_def toPointCloud_def)

lemma publish_decoded_defined:
  assumes "c \<noteq> 0" and "es \<noteq> []"
  shows "\<exists>cloud. publish ext c (n\<lparr>dataPackets := map (\<lambda>e. decode ext (snd e)) es\<rparr>) = Inr (Some cloud)"
proof -
  let ?ps = "map (\<lambda>e. decode ext (snd e)) es"
  let ?n = "n\<lparr>dataPackets := ?ps\<rparr>"
  from assms(2) have ne: "dataPackets ?n \<noteq> []" by simp
  from assms(2) have "mTimestamp (hd ?ps) = mTimestamp (decode ext (snd (hd es)))"
    and "mTimestamp (last ?ps) = mTimestamp (decode ext (snd (last es)))"
    by (simp_all add: hd_map last_map)
  with mTimestamp_decode[of ext] obtain t
    where "stamp_nsec (mTimestamp (hd ?ps)) (mTimestamp (last ?ps)) = Inr t"
    using stamp_nsec_defined[of "mTimestamp (hd ?ps)" "mTimestamp (last ?ps)"] by auto
  then have "stamp_nsec (mTimestamp (hd (dataPackets ?n))) (mTimestamp (last (dataPackets ?n))) = Inr t"
    by simp
  from publish_Some[OF assms(1) ne this, of ext] show ?thesis by blast
qed

lemma deliver_calls_nonempty_batch:
  "list_all (\<lambda>call. batch call \<noteq> [] \<and> length (batch call) = size_t (numDataPackets n)
                  \<and> outcome call \<noteq> Inl EmptyVectorAccess) (snd (deliver ext e n))"
  by (cases e) (simp add: deliver_eq publish_not_empty_access)

lemma chunk_filter_map:
  "map (\<lambda>(l, rot). g l rot) (filter (\<lambda>(l, rot). P l) (map (\<lambda>l. (l, r)) ls))
     = map (\<lambda>l. g l r) (filter P ls)"
  by (induction ls) simp_all

lemma packet_filter_map:
  "map (\<lambda>(l, rot). g l rot)
     (filter (\<lambda>(l, rot). P l)
        (concat (map (\<lambda>chunk. map (\<lambda>l. (l, mRotationalInfo chunk)) (mLaserData chunk)) chunks)))
   = concat (map (\<lambda>chunk. map (\<lambda>l. g l (mRotationalInfo chunk)) (filter P (mLaserData chunk))) chunks)"
  by (induction chunks) (simp_all add: chunk_filter_map)

lemma returns_of_Cons: "returns_of (dp # ps) = returns_of [dp] @ returns_of ps"
  by (simp add: returns_of_def)

lemma toPointCloud_returns:
  "toPointCloud ext dp cal acc lo hi
     = acc @ map (\<lambda>(l, rot). convertSingleReturn ext l rot cal)
               (filter (\<lambda>(l, rot). lo \<le> mDistance l \<and> mDistance l \<le> hi) (returns_of [dp]))"
  by (simp add: toPointCloud_def returns_of_def packet_filter_map)

lemma foldl_toPointCloud:
  "foldl (\<lambda>pc dp. toPointCloud ext dp cal pc lo hi) acc ps
     = acc @ map (\<lambda>(l, rot). convertSingleReturn ext l rot cal)
               (filter (\<lambda>(l, rot). lo \<le> mDistance l \<and> mDistance l \<le> hi) (returns_of ps))"
proof (induction ps arbitrary: acc)
  case Nil
  then show ?case by (simp add: returns_of_def)
next
  case (Cons dp ps)
  have "foldl (\<lambda>pc dp. toPointCloud ext dp cal pc lo hi) acc (dp # ps)
          = foldl (\<lambda>pc dp. toPointCloud ext dp cal pc lo hi) (toPointCloud ext dp cal acc lo hi) ps"
    by (simp only: foldl.simps)
  also have "\<dots> = toPointCloud ext dp cal acc lo hi
                 @ map (\<lambda>(l, rot). convertSingleReturn ext l rot cal)
                     (filter (\<lambda>(l, rot). lo \<le> mDistance l \<and> mDistance l \<le> hi) (returns_of ps))"
    by (rule Cons.IH)
  also have "\<dots> = acc @ map (\<lambda>(l, rot). convertSingleReturn ext l rot cal)
                 (filter (\<lambda>(l, rot). lo \<le> mDistance l \<and> mDistance l \<le> hi) (returns_of (dp # ps)))"
    by (simp add: toPointCloud_returns returns_of_Cons[of dp ps])
  finally show ?case .
qed

lemma deliver_all_stamped:
  assumes "\<forall>p\<in>set (dataPackets n). 0 \<le> mTimestamp p \<and> mTimestamp p < 4300000000000000000"
  shows "\<forall>p\<in>set (dataPackets (fst (deliver_all ext es n))).
           0 \<le> mTimestamp p \<and> mTimestamp p < 4300000000000000000"
  using assms
proof (induction es arbitrary: n)
  case Nil
  then show ?case by simp
next
  case (Cons e es)
  obtain c m where e: "e = (c, m)" by (cases e)
  have "\<forall>p\<in>set (dataPackets (fst (deliver ext (c, m) n))).
          0 \<le> mTimestamp p \<and> mTimestamp p < 4300000000000000000"
    using Cons.prems mTimestamp_decode_fine[of ext m] by (auto simp add: deliver_eq)
  from Cons.IH[OF this] show ?case using e by (simp add: split_beta)
qed

lemma publish_stamp:
  assumes "c \<noteq> 0" and "dataPackets n \<noteq> []"
    and "mTimestamp (hd (dataPackets n)) = first" and "mTimestamp (last (dataPackets n)) = lst"
    and "0 \<le> first" and "first < 4300000000000000000"
    and "0 \<le> lst" and "lst < 4300000000000000000"
  shows "\<exists>s. publish ext c n =
           Inr (Some \<lparr>header = \<lparr>stamp = fromNSec s, frame_id = frameId n\<rparr>,
                      points = map (\<lambda>p. Point32 (mX p) (mY p) (mZ p))
                        (foldl (\<lambda>pc dp. toPointCloud ext dp (calibration n) pc (minDistance n) (maxDistance n))
                           [] (dataPackets n)),
                      channels = [ChannelFloat32 ''intensity'' (map mIntensity
                        (foldl (\<lambda>pc dp. toPointCloud ext dp (calibration n) pc (minDistance n) (maxDistance n))
                           [] (dataPackets n)))]\<rparr>)
         \<and> int s = double_of_int (double_of_int first + round_half (double_of_int (lst - first)))
         \<and> \<bar>int s - (first + cround (real_of_int (lst - first) * 0.5))\<bar> \<le> 641
         \<and> (first < 4294967295000000000 \<and> lst < 4294967295000000000 \<longrightarrow> toNSec (fromNSec s) = s)
         \<and> (first < 2 ^ 53 \<and> lst < 2 ^ 53 \<longrightarrow> int s = first + cround (real_of_int (lst - first) * 0.5))"
proof -
  from stamp_nsec_value[OF assms(5-8)] obtain s where
    st: "stamp_nsec first lst = Inr s"
    and v: "int s = double_of_int (double_of_int first + round_half (double_of_int (lst - first)))"
    and er: "\<bar>int s - (first + round_half (lst - first))\<bar> \<le> 641"
    and up: "int s \<le> max first lst + 641"
    by blast
  from st assms(3,4)
  have "stamp_nsec (mTimestamp (hd (dataPackets n))) (mTimestamp (last (dataPackets n))) = Inr s"
    by simp
  note p = publish_Some[OF assms(1,2) this, of ext]
  have rng: "toNSec (fromNSec s) = s"
    if "first < 4294967295000000000 \<and> lst < 4294967295000000000"
  proof -
    from that up have "int s < 4294967296000000000" by (simp add: max_def split: if_splits)
    then have "s < 4294967296000000000" by linarith
    then have "s < 2 ^ 32 * 1000000000" by simp
    then show ?thesis by (rule toNSec_fromNSec)
  qed
  have ex: "int s = first + round_half (lst - first)" if "first < 2 ^ 53 \<and> lst < 2 ^ 53"
  proof -
    from that have a: "first < 2 ^ 53" and b: "lst < 2 ^ 53" by simp_all
    from stamp_nsec_exact[OF assms(5) a assms(7) b] st
    have "s = nat (first + round_half (lst - first))" "0 \<le> first + round_half (lst - first)"
      by simp_all
    then show ?thesis by simp
  qed
  from p v er rng ex show ?thesis unfolding round_half_cround by blast
qed

lemma completed_batch:
  assumes "dataPackets n = []"
    and "length (dataPackets (fst (deliver_all ext es n))) + 1 = size_t (numDataPackets n)"
    and "c \<noteq> 0"
    and "b = dataPackets (fst (deliver_all ext es n)) @ [decode ext msg]"
    and "first = mTimestamp (hd b)" and "lst = mTimestamp (last b)"
  shows "\<exists>s. snd (deliver ext (c, msg) (fst (deliver_all ext es n))) =
           [PublishCall b
             (Inr (Some \<lparr>header = \<lparr>stamp = fromNSec s, frame_id = msg_frame_id msg\<rparr>,
                      points = map (\<lambda>p. Point32 (mX p) (mY p) (mZ p))
                        (foldl (\<lambda>pc dp. toPointCloud ext dp (calibration n) pc (minDistance n) (maxDistance n))
                           [] b),
                      channels = [ChannelFloat32 ''intensity'' (map mIntensity
                        (foldl (\<lambda>pc dp. toPointCloud ext dp (calibration n) pc (minDistance n) (maxDistance n))
                           [] b))]\<rparr>))]
         \<and> 0 \<le> first \<and> 0 \<le> lst
         \<and> int s = double_of_int (double_of_int first + round_half (double_of_int (lst - first)))
         \<and> \<bar>int s - (first + cround (real_of_int (lst - first) * 0.5))\<bar> \<le> 641
         \<and> (first < 4294967295000000000 \<and> lst < 4294967295000000000 \<longrightarrow> toNSec (fromNSec s) = s)
         \<and> (first < 2 ^ 53 \<and> lst < 2 ^ 53 \<longrightarrow> int s = first + cround (real_of_int (lst - first) * 0.5))"
proof -
  define n' where "n' = fst (deliver_all ext es n)"
  obtain f ps where fr: "n' = n\<lparr>frameId := f, dataPackets := ps\<rparr>"
    unfolding n'_def using deliver_all_frame[of ext es n] by blast
  have ps: "ps = dataPackets n'" using fr by simp
  have "\<forall>p\<in>set (dataPackets n). 0 \<le> mTimestamp p \<and> mTimestamp p < 4300000000000000000"
    using assms(1) by simp
  from deliver_all_stamped[OF this, of ext es]
  have sp: "\<forall>p\<in>set ps. 0 \<le> mTimestamp p \<and> mTimestamp p < 4300000000000000000"
    unfolding ps n'_def .
  have b: "b = ps @ [decode ext msg]" using assms(4) ps n'_def by simp
  then have bne: "b \<noteq> []" by simp
  have sb: "\<forall>p\<in>set b. 0 \<le> mTimestamp p \<and> mTimestamp p < 4300000000000000000"
    using sp mTimestamp_decode_fine[of ext msg] b by auto
  have "hd b \<in> set b" "last b \<in> set b" using bne by simp_all
  with sb assms(5,6) have bounds: "0 \<le> first" "first < 4300000000000000000"
    "0 \<le> lst" "lst < 4300000000000000000" by auto
  let ?n = "n'\<lparr>frameId := msg_frame_id msg, dataPackets := b\<rparr>"
  have full: "length (dataPackets n') + 1 = size_t (numDataPackets n')"
    using assms(2) fr n'_def by simp
  have d: "snd (deliver ext (c, msg) n') = [PublishCall b (publish ext c ?n)]"
    using full b ps by (simp add: deliver_eq)
  have "dataPackets ?n \<noteq> []" "mTimestamp (hd (dataPackets ?n)) = first"
    "mTimestamp (last (dataPackets ?n)) = lst"
    using bne assms(5,6) by simp_all
  from publish_stamp[OF assms(3) this bounds, of ext]
  obtain s where
    p: "publish ext c ?n =
           Inr (Some \<lparr>header = \<lparr>stamp = fromNSec s, frame_id = frameId ?n\<rparr>,
                      points = map (\<lambda>p. Point32 (mX p) (mY p) (mZ p))
                        (foldl (\<lambda>pc dp. toPointCloud ext dp (calibration ?n) pc (minDistance ?n) (maxDistance ?n))
                           [] (dataPackets ?n)),
                      channels = [ChannelFloat32 ''intensity'' (map mIntensity
                        (foldl (\<lambda>pc dp. toPointCloud ext dp (calibration ?n) pc (minDistance ?n) (maxDistance ?n))
                           [] (dataPackets ?n)))]\<rparr>)"
    and rest: "int s = double_of_int (double_of_int first + round_half (double_of_int (lst - first)))"
      "\<bar>int s - (first + cround (real_of_int (lst - first) * 0.5))\<bar> \<le> 641"
      "first < 4294967295000000000 \<and> lst < 4294967295000000000 \<longrightarrow> toNSec (fromNSec s) = s"
      "first < 2 ^ 53 \<and> lst < 2 ^ 53 \<longrightarrow> int s = first + cround (real_of_int (lst - first) * 0.5)"
    by blast
  have fields: "calibration n' = calibration n" "minDistance n' = minDistance n"
    "maxDistance n' = maxDistance n"
    using fr by simp_all
  from d p have "snd (deliver ext (c, msg) n') =
           [PublishCall b
             (Inr (Some \<lparr>header = \<lparr>stamp = fromNSec s, frame_id = msg_frame_id msg\<rparr>,
                      points = map (\<lambda>p. Point32 (mX p) (mY p) (mZ p))
                        (foldl (\<lambda>pc dp. toPointCloud ext dp (calibration n) pc (minDistance n) (maxDistance n))
                           [] b),
                      channels = [ChannelFloat32 ''intensity'' (map mIntensity
                        (foldl (\<lambda>pc dp. toPointCloud ext dp (calibration n) pc (minDistance n) (maxDistance n))
                           [] b))]\<rparr>))]"
    by (simp add: fields)
  with rest bounds(1,3) show ?thesis unfolding n'_def by blast
qed

subsection \<open>Lifecycle and construction\<close>

lemma ctor_inactive:
  "VelodynePostNode_ctor ext nh raw = Inr (n, lg) \<Longrightarrow> \<not> subscriptionIsActive n"
  by (auto simp add: VelodynePostNode_ctor_def getParameters_def default_members_def Let_def
      split: if_splits sum.splits option.splits)






lemma getParameters_unknown_device:
  assumes "param_string nh ''sensor/device_name'' ''Velodyne HDL-32E'' = name"
    and "name \<noteq> ''Velodyne HDL-64E S2''" and "name \<noteq> ''Velodyne HDL-32E''"
  shows "snd (getParameters nh n) = [ROS_ERROR (''Unknown device: '' @ name)]"
    and "calibFileName (fst (getParameters nh n)) = calibFileName n"
    and "numDataPackets (fst (getParameters nh n)) = numDataPackets n"
  using assms by (simp_all add: getParameters_def Let_def)

lemma ctor_node2: "VelodynePostNode_ctor ext0 nh2 raw0 = Inr (node2, [])"
  by (simp add: VelodynePostNode_ctor_def getParameters_def default_members_def ext0_def nh2_def
      raw0_def node2_def param_double_def param_string_def param_bool_def param_int_def
      Let_def size_t_def reserve_def reliable_def unreliable_def)


lemma wf_raw_msg: "wf_DataPacketMsg (raw_msg s ns f)"
  by (simp add: wf_DataPacketMsg_def raw_msg_def mDataChunkNbr_def mLasersPerPacket_def list_all_iff)

lemma decode_raw_msg:
  "decode ext (Raw (raw_msg s ns f)) = pkt (int (toNSec \<lparr>sec = s, nsec = ns\<rparr>))"
  by (simp add: dataPacket_of_msg_def raw_msg_def pkt_def mDataChunkNbr_def dataChunk_of_msg_def
      mLasersPerPacket_def list_eq_iff_nth_eq del: upt_rec_numeral)

section \<open>The claims\<close>

text \<open>
  C1 (as amended). The specification says that a compressed message whose decoding fails
  is dropped and reported, leaving the batch as it was. The callback has no failure
  path: the success flag of \<^verbatim>\<open>snappy::Uncompress\<close> is discarded, and for every message the
  packet deserialised from whatever bytes decompression left, with its timestamp
  overwritten by the capture time of the message, is appended after the packets already
  in the batch; the batch is published and cleared when its size reaches the configured
  count. The second conjunct: replacing the success flag by any other leaves the callback
  unchanged.
\<close>

theorem snappy_callback_appends_unconditionally:
  "velodyneBinarySnappyCallback ext c msg n =
     (if length (dataPackets n) + 1 = size_t (numDataPackets n)
      then (n\<lparr>frameId := frame_id (header msg), dataPackets := []\<rparr>,
            [PublishCall
               (dataPackets n @
                  [(readBinary ext (snd (Uncompress ext (data msg))))
                     \<lparr>mTimestamp := int (toNSec (stamp (header msg)))\<rparr>])
               (publish ext c
                  (n\<lparr>frameId := frame_id (header msg),
                     dataPackets := dataPackets n @
                       [(readBinary ext (snd (Uncompress ext (data msg))))
                          \<lparr>mTimestamp := int (toNSec (stamp (header msg)))\<rparr>]\<rparr>))])
      else (n\<lparr>frameId := frame_id (header msg),
              dataPackets := dataPackets n @
                [(readBinary ext (snd (Uncompress ext (data msg))))
                   \<lparr>mTimestamp := int (toNSec (stamp (header msg)))\<rparr>]\<rparr>, []))
   \<and> velodyneBinarySnappyCallback (ext\<lparr>Uncompress := \<lambda>bs. (flag bs, snd (Uncompress ext bs))\<rparr>) c msg n
       = velodyneBinarySnappyCallback ext c msg n"
  by (simp add: velodyneBinarySnappyCallback_def dataPacket_of_snappy_def Let_def
      publish_Uncompress_irrelevant)

text \<open>The amended statement at a message whose decompression fails.\<close>

theorem snappy_callback_appends_unconditionally_witness:
  "velodyneBinarySnappyCallback ext0 1 (snappy_msg 0 2000 ''velodyne'' [])
     (node2\<lparr>numDataPackets := 174, dataPackets := [pkt 1000]\<rparr>)
   = (node2\<lparr>numDataPackets := 174, frameId := ''velodyne'',
            dataPackets := [pkt 1000, \<lparr>mData = [], mTimestamp = 2000, mSpinCount = 0, mReserved = 0\<rparr>]\<rparr>,
      [])
   \<and> velodyneBinarySnappyCallback (ext0\<lparr>Uncompress := \<lambda>bs. (True, snd (Uncompress ext0 bs))\<rparr>) 1
        (snappy_msg 0 2000 ''velodyne'' []) (node2\<lparr>numDataPackets := 174, dataPackets := [pkt 1000]\<rparr>)
     = velodyneBinarySnappyCallback ext0 1 (snappy_msg 0 2000 ''velodyne'' [])
        (node2\<lparr>numDataPackets := 174, dataPackets := [pkt 1000]\<rparr>)"
proof -
  note t = snappy_callback_appends_unconditionally[of ext0 1 "snappy_msg 0 2000 ''velodyne'' []"
      "node2\<lparr>numDataPackets := 174, dataPackets := [pkt 1000]\<rparr>" "\<lambda>bs. True"]
  have "velodyneBinarySnappyCallback ext0 1 (snappy_msg 0 2000 ''velodyne'' [])
     (node2\<lparr>numDataPackets := 174, dataPackets := [pkt 1000]\<rparr>)
   = (node2\<lparr>numDataPackets := 174, frameId := ''velodyne'',
            dataPackets := [pkt 1000, \<lparr>mData = [], mTimestamp = 2000, mSpinCount = 0, mReserved = 0\<rparr>]\<rparr>,
      [])"
    using t by (simp add: ext0_def snappy_msg_def node2_def size_t_def toNSec_def)
  with t show ?thesis by blast
qed

text \<open>C1 as stated fails: decompression of the empty buffer fails, and the callback
  appends a packet all the same; the batch of one packet has two afterwards.\<close>

theorem snappy_decode_failure_counterexample:
  "fst (Uncompress ext0 (data (snappy_msg 0 2000 ''velodyne'' []))) = False
   \<and> dataPackets (fst (velodyneBinarySnappyCallback ext0 1 (snappy_msg 0 2000 ''velodyne'' [])
        (node2\<lparr>numDataPackets := 174, dataPackets := [pkt 1000]\<rparr>)))
      = [pkt 1000, \<lparr>mData = [], mTimestamp = 2000, mSpinCount = 0, mReserved = 0\<rparr>]"
  by (simp add: velodyneBinarySnappyCallback_def dataPacket_of_snappy_def Let_def ext0_def
      snappy_msg_def node2_def size_t_def toNSec_def)

text \<open>
  C2. Let the configured count be \<open>k > 0\<close> and the batch empty. If \<open>k\<close> messages arrive and
  the subscriber count observed when the batch completes is zero, \<^verbatim>\<open>publish\<close> is called
  once, returns at once (for any collaborators, so no conversion takes place) and emits
  nothing, and the batch is cleared. If \<open>k\<close> further messages arrive and the count
  observed at completion is positive, there is exactly one more call; it emits a message,
  and that message is what \<^verbatim>\<open>publish\<close> makes of a node whose batch holds the second \<open>k\<close>
  packets and nothing else.
\<close>

theorem demand_gating:
  assumes "size_t (numDataPackets n) = k" and "0 < k" and "dataPackets n = []"
    and "length es1 = k" and "length es2 = k"
    and "fst (last es1) = 0" and "fst (last es2) \<noteq> 0"
  shows "snd (deliver_all ext es1 n) = [PublishCall (map (\<lambda>e. decode ext (snd e)) es1) (Inr None)]
         \<and> dataPackets (fst (deliver_all ext es1 n)) = []
         \<and> (\<exists>cloud.
              snd (deliver_all ext (es1 @ es2) n) =
                [PublishCall (map (\<lambda>e. decode ext (snd e)) es1) (Inr None),
                 PublishCall (map (\<lambda>e. decode ext (snd e)) es2) (Inr (Some cloud))]
              \<and> publish ext (fst (last es2))
                   (n\<lparr>frameId := msg_frame_id (snd (last es2)),
                      dataPackets := map (\<lambda>e. decode ext (snd e)) es2\<rparr>) = Inr (Some cloud))
         \<and> publish ext' 0 n' = Inr None"
proof -
  let ?dec = "\<lambda>e. decode ext (snd e)"
  let ?n1 = "n\<lparr>frameId := msg_frame_id (snd (last es1)), dataPackets := []\<rparr>"
  from assms have ne: "es1 \<noteq> []" "es2 \<noteq> []" by auto
  have f1: "length (dataPackets n) + length es1 = k" using assms by simp
  from deliver_all_fill[OF assms(1) ne(1) f1, of ext]
  have r1: "deliver_all ext es1 n = (?n1, [PublishCall (map ?dec es1) (Inr None)])"
    using assms(3,6) by (simp add: publish_zero)
  have k1: "size_t (numDataPackets ?n1) = k" using assms(1) by simp
  have f2: "length (dataPackets ?n1) + length es2 = k" using assms by simp
  let ?n2 = "n\<lparr>frameId := msg_frame_id (snd (last es2)), dataPackets := map ?dec es2\<rparr>"
  from deliver_all_fill[OF k1 ne(2) f2, of ext]
  have r2: "snd (deliver_all ext es2 ?n1) =
              [PublishCall (map ?dec es2) (publish ext (fst (last es2)) ?n2)]"
    by simp
  from publish_decoded_defined[OF assms(7) ne(2), of ext "n\<lparr>frameId := msg_frame_id (snd (last es2))\<rparr>"]
  obtain cloud where cl: "publish ext (fst (last es2)) ?n2 = Inr (Some cloud)" by auto
  have "snd (deliver_all ext (es1 @ es2) n) =
          [PublishCall (map ?dec es1) (Inr None), PublishCall (map ?dec es2) (Inr (Some cloud))]"
    using r1 r2 cl by (simp add: deliver_all_append split_beta)
  with r1 cl show ?thesis by (simp add: publish_zero)
qed

text \<open>Two messages without demand, then two with demand, on a node that batches two
  packets.\<close>

theorem demand_gating_witness:
  "snd (deliver_all ext0 es_idle node2) =
     [PublishCall (map (\<lambda>e. decode ext0 (snd e)) es_idle) (Inr None)]
   \<and> dataPackets (fst (deliver_all ext0 es_idle node2)) = []
   \<and> (\<exists>cloud.
        snd (deliver_all ext0 (es_idle @ es_demand) node2) =
          [PublishCall (map (\<lambda>e. decode ext0 (snd e)) es_idle) (Inr None),
           PublishCall (map (\<lambda>e. decode ext0 (snd e)) es_demand) (Inr (Some cloud))]
        \<and> publish ext0 2
             (node2\<lparr>frameId := ''d'', dataPackets := map (\<lambda>e. decode ext0 (snd e)) es_demand\<rparr>)
           = Inr (Some cloud))"
proof -
  have h: "size_t (numDataPackets node2) = 2" "(0::nat) < 2" "dataPackets node2 = []"
    "length es_idle = 2" "length es_demand = 2" "fst (last es_idle) = 0" "fst (last es_demand) \<noteq> 0"
    by (simp_all add: node2_def size_t_def es_idle_def es_demand_def)
  have l: "fst (last es_demand) = 2" "msg_frame_id (snd (last es_demand)) = ''d''"
    by (simp_all add: es_demand_def raw_msg_def)
  from demand_gating[OF h, of ext0 ext0 node2] show ?thesis
    unfolding l by blast
qed

text \<open>
  C3. Let the configured count be \<open>k > 0\<close> and the batch empty, as the constructor leaves
  it (lemma \<open>ctor_dataPackets\<close>). For every sequence of
  \<open>m * k\<close> messages, of either kind, \<^verbatim>\<open>publish\<close> is called exactly \<open>m\<close> times; every call sees
  exactly \<open>k\<close> packets; the batches, one after the other, are the decoded packets in arrival
  order; the batch is empty at the end; and after the first \<open>j\<close> messages \<open>j div k\<close> batches
  have been formed and the accumulator holds \<open>j mod k\<close> packets, so it is empty after each
  completed batch and never reaches \<open>k\<close> between callbacks.
\<close>

theorem batch_sizing:
  assumes "size_t (numDataPackets n) = k" and "0 < k" and "dataPackets n = []"
    and "length es = m * k"
  shows "length (snd (deliver_all ext es n)) = m
         \<and> list_all (\<lambda>c. length (batch c) = k) (snd (deliver_all ext es n))
         \<and> concat (map batch (snd (deliver_all ext es n))) = map (\<lambda>e. decode ext (snd e)) es
         \<and> dataPackets (fst (deliver_all ext es n)) = []
         \<and> (\<forall>j\<le>length es. length (snd (deliver_all ext (take j es) n)) = j div k
                \<and> length (dataPackets (fst (deliver_all ext (take j es) n))) = j mod k)"
proof -
  from assms have pre: "size_t (numDataPackets n) = k" "length (dataPackets n) < k" by simp_all
  note cnt = deliver_all_count[OF assms(1-3), of ext]
  have 1: "length (snd (deliver_all ext es n)) = m"
    using cnt[of es] assms(2,4) by simp
  have 4: "dataPackets (fst (deliver_all ext es n)) = []"
    using cnt[of es] assms(2,4) by simp
  have 2: "list_all (\<lambda>c. length (batch c) = k) (snd (deliver_all ext es n))"
    using deliver_all_inv[OF pre, of ext es] by simp
  have 3: "concat (map batch (snd (deliver_all ext es n))) = map (\<lambda>e. decode ext (snd e)) es"
    using deliver_all_inv[OF pre, of ext es] 4 assms(3) by simp
  have 5: "\<forall>j\<le>length es. length (snd (deliver_all ext (take j es) n)) = j div k
                \<and> length (dataPackets (fst (deliver_all ext (take j es) n))) = j mod k"
    using cnt by (simp add: min_def)
  from 1 2 3 4 5 show ?thesis by blast
qed

text \<open>Four messages on a node that batches two packets.\<close>

theorem batch_sizing_witness:
  "length (snd (deliver_all ext0 es4 node2)) = 2
   \<and> list_all (\<lambda>c. length (batch c) = 2) (snd (deliver_all ext0 es4 node2))
   \<and> concat (map batch (snd (deliver_all ext0 es4 node2))) = map (\<lambda>e. decode ext0 (snd e)) es4
   \<and> dataPackets (fst (deliver_all ext0 es4 node2)) = []
   \<and> length (dataPackets (fst (deliver_all ext0 (take 3 es4) node2))) = 1"
proof -
  have h: "size_t (numDataPackets node2) = 2" "(0::nat) < 2" "dataPackets node2 = []"
    "length es4 = 2 * 2"
    by (simp_all add: node2_def size_t_def es4_def)
  note t = batch_sizing[OF h, of ext0]
  from t have "\<forall>j\<le>length es4. length (dataPackets (fst (deliver_all ext0 (take j es4) node2))) = j mod 2"
    by blast
  then have "3 \<le> length es4 \<longrightarrow>
      length (dataPackets (fst (deliver_all ext0 (take 3 es4) node2))) = 3 mod 2"
    by (rule spec)
  moreover have "3 \<le> length es4" by (simp add: es4_def)
  ultimately have "length (dataPackets (fst (deliver_all ext0 (take 3 es4) node2))) = 1"
    by simp
  with t show ?thesis by blast
qed

text \<open>
  C4 (as amended). Let the batch be empty, as the constructor leaves it (lemma
  \<open>ctor_dataPackets\<close>), and let any run of messages be followed by a message that
  completes a batch while the topic has subscribers. Then exactly one cloud is published,
  for that batch, and its timestamp is \<open>fromNSec s\<close>, where \<open>s\<close> is the expression
  \<open>first + round ((last - first) * 0.5)\<close> as the code evaluates it, in \<^verbatim>\<open>double\<close>: \<open>first\<close>
  and \<open>last - first\<close> are each rounded to \<^verbatim>\<open>double\<close>, the half is rounded by \<^verbatim>\<open>std::round\<close>,
  and the sum is rounded to \<^verbatim>\<open>double\<close> again. Whatever capture times the messages carry,
  \<open>s\<close> differs from the value of the formula on the integers by at most 641 ns. When both
  timestamps are below \<open>2^53\<close> ns, the published timestamp is exactly that value. When
  both are below 4294967295 s, \<open>s\<close> fits \<^verbatim>\<open>ros::Time\<close>, and the published timestamp reads
  back as \<open>s\<close>.
\<close>

theorem publish_stamp_midpoint:
  assumes "dataPackets n = []"
    and "length (dataPackets (fst (deliver_all ext es n))) + 1 = size_t (numDataPackets n)"
    and "numSubscribers \<noteq> 0"
    and "b = dataPackets (fst (deliver_all ext es n)) @ [decode ext msg]"
    and "first = mTimestamp (hd b)" and "lst = mTimestamp (last b)"
  shows "\<exists>m s. snd (deliver ext (numSubscribers, msg) (fst (deliver_all ext es n)))
                 = [PublishCall b (Inr (Some m))]
           \<and> stamp (header m) = fromNSec s
           \<and> int s = double_of_int (double_of_int first + round_half (double_of_int (lst - first)))
           \<and> \<bar>int s - (first + cround (real_of_int (lst - first) * 0.5))\<bar> \<le> 641
           \<and> (first < 4294967295000000000 \<and> lst < 4294967295000000000
                \<longrightarrow> toNSec (stamp (header m)) = s)
           \<and> (first < 2 ^ 53 \<and> lst < 2 ^ 53
                \<longrightarrow> int (toNSec (stamp (header m))) = first + cround (real_of_int (lst - first) * 0.5))"
proof -
  from completed_batch[OF assms] obtain s where
    d: "snd (deliver ext (numSubscribers, msg) (fst (deliver_all ext es n))) =
           [PublishCall b
             (Inr (Some \<lparr>header = \<lparr>stamp = fromNSec s, frame_id = msg_frame_id msg\<rparr>,
                      points = map (\<lambda>p. Point32 (mX p) (mY p) (mZ p))
                        (foldl (\<lambda>pc dp. toPointCloud ext dp (calibration n) pc (minDistance n) (maxDistance n))
                           [] b),
                      channels = [ChannelFloat32 ''intensity'' (map mIntensity
                        (foldl (\<lambda>pc dp. toPointCloud ext dp (calibration n) pc (minDistance n) (maxDistance n))
                           [] b))]\<rparr>))]"
    and v: "int s = double_of_int (double_of_int first + round_half (double_of_int (lst - first)))"
    and er: "\<bar>int s - (first + cround (real_of_int (lst - first) * 0.5))\<bar> \<le> 641"
    and rng: "first < 4294967295000000000 \<and> lst < 4294967295000000000 \<longrightarrow> toNSec (fromNSec s) = s"
    and ex: "first < 2 ^ 53 \<and> lst < 2 ^ 53 \<longrightarrow> int s = first + cround (real_of_int (lst - first) * 0.5)"
    by blast
  let ?m = "\<lparr>header = \<lparr>stamp = fromNSec s, frame_id = msg_frame_id msg\<rparr>,
                      points = map (\<lambda>p. Point32 (mX p) (mY p) (mZ p))
                        (foldl (\<lambda>pc dp. toPointCloud ext dp (calibration n) pc (minDistance n) (maxDistance n))
                           [] b),
                      channels = [ChannelFloat32 ''intensity'' (map mIntensity
                        (foldl (\<lambda>pc dp. toPointCloud ext dp (calibration n) pc (minDistance n) (maxDistance n))
                           [] b))]\<rparr>"
  have h: "stamp (header ?m) = fromNSec s" by simp
  have ex': "first < 2 ^ 53 \<and> lst < 2 ^ 53
      \<longrightarrow> int (toNSec (stamp (header ?m))) = first + cround (real_of_int (lst - first) * 0.5)"
  proof
    assume a: "first < 2 ^ 53 \<and> lst < 2 ^ 53"
    then have "first < 4294967295000000000 \<and> lst < 4294967295000000000" by simp
    with rng have "toNSec (fromNSec s) = s" by blast
    with ex a show "int (toNSec (stamp (header ?m))) = first + cround (real_of_int (lst - first) * 0.5)"
      by simp
  qed
  have rng': "first < 4294967295000000000 \<and> lst < 4294967295000000000
                \<longrightarrow> toNSec (stamp (header ?m)) = s"
    using rng by simp
  from d h v er rng' ex' show ?thesis by blast
qed

text \<open>A first packet at 1000 ns and a last one at 3000 ns give 2000 ns. Capture times of
  1400000000 s plus 128 ns and plus 384 ns give exactly 1400000000 s, which is 256 ns
  below the value of the formula.\<close>

theorem publish_stamp_midpoint_witness:
  "(\<exists>m. snd (deliver ext0 (1, Raw (raw_msg 0 3000 ''velodyne''))
              (fst (deliver_all ext0 [(0, Raw (raw_msg 0 1000 ''velodyne''))] node2)))
          = [PublishCall [pkt 1000, pkt 3000] (Inr (Some m))]
        \<and> int (toNSec (stamp (header m))) = 2000)
   \<and> (\<exists>m. snd (deliver ext0 (1, Raw (raw_msg 1400000000 384 ''velodyne''))
              (fst (deliver_all ext0 [(1, Raw (raw_msg 1400000000 128 ''velodyne''))] node2)))
          = [PublishCall [pkt 1400000000000000128, pkt 1400000000000000384] (Inr (Some m))]
        \<and> toNSec (stamp (header m)) = 1400000000000000000
        \<and> \<bar>int (toNSec (stamp (header m))) - 1400000000000000256\<bar> \<le> 641)"
proof -
  have n: "dataPackets node2 = []" "size_t (numDataPackets node2) = 2" "(1 :: 32 word) \<noteq> 0"
    by (simp_all add: node2_def size_t_def)
  have d: "dataPackets (fst (deliver_all ext0 [(c, Raw (raw_msg s ns f))] node2))
             = [pkt (int (toNSec \<lparr>sec = s, nsec = ns\<rparr>))]" for c s ns f
    using n by (simp add: deliver_eq decode_raw_msg del: decode.simps)
  have t: "int (toNSec \<lparr>sec = 0, nsec = 1000\<rparr>) = 1000" "int (toNSec \<lparr>sec = 0, nsec = 3000\<rparr>) = 3000"
    "int (toNSec \<lparr>sec = 1400000000, nsec = 128\<rparr>) = 1400000000000000128"
    "int (toNSec \<lparr>sec = 1400000000, nsec = 384\<rparr>) = 1400000000000000384"
    by (simp_all add: toNSec_def)
  have a: "length (dataPackets (fst (deliver_all ext0 [(0, Raw (raw_msg 0 1000 ''velodyne''))] node2))) + 1
             = size_t (numDataPackets node2)"
    unfolding d n by simp
  have b: "[pkt 1000, pkt 3000]
             = dataPackets (fst (deliver_all ext0 [(0, Raw (raw_msg 0 1000 ''velodyne''))] node2))
               @ [decode ext0 (Raw (raw_msg 0 3000 ''velodyne''))]"
    unfolding d decode_raw_msg t by simp
  have f: "(1000 :: int) = mTimestamp (hd [pkt 1000, pkt 3000])"
    "(3000 :: int) = mTimestamp (last [pkt 1000, pkt 3000])"
    by (simp_all add: pkt_def)
  from publish_stamp_midpoint[OF n(1) a n(3) b f]
  have 1: "\<exists>m. snd (deliver ext0 (1, Raw (raw_msg 0 3000 ''velodyne''))
              (fst (deliver_all ext0 [(0, Raw (raw_msg 0 1000 ''velodyne''))] node2)))
          = [PublishCall [pkt 1000, pkt 3000] (Inr (Some m))]
        \<and> int (toNSec (stamp (header m))) = 2000"
    by (auto simp add: cround_def)
  have a': "length (dataPackets (fst (deliver_all ext0 [(1, Raw (raw_msg 1400000000 128 ''velodyne''))] node2))) + 1
             = size_t (numDataPackets node2)"
    unfolding d n by simp
  have b': "[pkt 1400000000000000128, pkt 1400000000000000384]
             = dataPackets (fst (deliver_all ext0 [(1, Raw (raw_msg 1400000000 128 ''velodyne''))] node2))
               @ [decode ext0 (Raw (raw_msg 1400000000 384 ''velodyne''))]"
    unfolding d decode_raw_msg t by simp
  have f': "(1400000000000000128 :: int)
              = mTimestamp (hd [pkt 1400000000000000128, pkt 1400000000000000384])"
    "(1400000000000000384 :: int)
              = mTimestamp (last [pkt 1400000000000000128, pkt 1400000000000000384])"
    by (simp_all add: pkt_def)
  have v: "double_of_int (double_of_int 1400000000000000128
             + round_half (double_of_int (1400000000000000384 - 1400000000000000128)))
           = 1400000000000000000"
    by (simp add: double_of_int_def round_to_double_def round_half_def compute_floorlog Let_def)
  from publish_stamp_midpoint[OF n(1) a' n(3) b' f']
  have 2: "\<exists>m. snd (deliver ext0 (1, Raw (raw_msg 1400000000 384 ''velodyne''))
              (fst (deliver_all ext0 [(1, Raw (raw_msg 1400000000 128 ''velodyne''))] node2)))
          = [PublishCall [pkt 1400000000000000128, pkt 1400000000000000384] (Inr (Some m))]
        \<and> toNSec (stamp (header m)) = 1400000000000000000
        \<and> \<bar>int (toNSec (stamp (header m))) - 1400000000000000256\<bar> \<le> 641"
    unfolding v by auto
  from 1 2 show ?thesis by (rule conjI)
qed

text \<open>C4 as stated fails for large timestamps. The first packet is stamped \<open>2^60\<close> ns
  (1152921504 s, 606846976 ns) and the last 256 ns later; two such messages are delivered
  to a node that batches two packets. The formula gives \<open>2^60 + 128\<close>, which no
  \<^verbatim>\<open>double\<close> holds: the sum is rounded to \<open>2^60\<close>, whatever 64-bit type keeps the packet
  timestamps. The returns of the packets are at distance 0, below the minimum distance,
  so the cloud has no points.\<close>

theorem publish_stamp_counterexample:
  "snd (deliver_all ext0
          [(1, Raw (raw_msg 1152921504 606846976 ''velodyne'')),
           (1, Raw (raw_msg 1152921504 606847232 ''velodyne''))] node2)
     = [PublishCall [pkt 1152921504606846976, pkt 1152921504606847232]
          (Inr (Some \<lparr>header = \<lparr>stamp = \<lparr>sec = 1152921504, nsec = 606846976\<rparr>, frame_id = ''velodyne''\<rparr>,
                      points = [], channels = [ChannelFloat32 ''intensity'' []]\<rparr>))]
   \<and> int (toNSec \<lparr>sec = 1152921504, nsec = 606846976\<rparr>) = 1152921504606846976
   \<and> int (toNSec \<lparr>sec = 1152921504, nsec = 606846976\<rparr>)
       \<noteq> 1152921504606846976
           + cround (real_of_int (1152921504606847232 - 1152921504606846976) * 0.5)"
proof -
  let ?es = "[(1 :: 32 word, Raw (raw_msg 1152921504 606846976 ''velodyne'')),
              (1, Raw (raw_msg 1152921504 606847232 ''velodyne''))]"
  have h: "size_t (numDataPackets node2) = 2" "?es \<noteq> []" "length (dataPackets node2) + length ?es = 2"
    by (simp_all add: node2_def size_t_def)
  have d: "map (\<lambda>e. decode ext0 (snd e)) ?es = [pkt 1152921504606846976, pkt 1152921504606847232]"
    by (simp add: decode_raw_msg toNSec_def del: decode.simps)
  have p: "publish ext0 1 (node2\<lparr>frameId := ''velodyne'',
              dataPackets := [pkt 1152921504606846976, pkt 1152921504606847232]\<rparr>) =
     Inr (Some \<lparr>header = \<lparr>stamp = \<lparr>sec = 1152921504, nsec = 606846976\<rparr>, frame_id = ''velodyne''\<rparr>,
                points = [], channels = [ChannelFloat32 ''intensity'' []]\<rparr>)"
    by (simp add: publish_def pkt_def node2_def ext0_def toPointCloud_def stamp_nsec_def
      double_of_int_def round_to_double_def round_half_def compute_floorlog Let_def
      fromNSec_def)
  have f: "msg_frame_id (snd (last ?es)) = ''velodyne''" "fst (last ?es) = 1" "dataPackets node2 = []"
    by (simp_all add: raw_msg_def node2_def)
  from deliver_all_fill[OF h, of ext0]
  have "snd (deliver_all ext0 ?es node2)
     = [PublishCall [pkt 1152921504606846976, pkt 1152921504606847232]
          (Inr (Some \<lparr>header = \<lparr>stamp = \<lparr>sec = 1152921504, nsec = 606846976\<rparr>, frame_id = ''velodyne''\<rparr>,
                      points = [], channels = [ChannelFloat32 ''intensity'' []]\<rparr>))]"
    unfolding d f by (simp add: p)
  moreover have "int (toNSec \<lparr>sec = 1152921504, nsec = 606846976\<rparr>) = 1152921504606846976"
    by (simp add: toNSec_def)
  moreover have "int (toNSec \<lparr>sec = 1152921504, nsec = 606846976\<rparr>)
       \<noteq> 1152921504606846976
           + cround (real_of_int (1152921504606847232 - 1152921504606846976) * 0.5)"
    by (simp add: toNSec_def cround_def)
  ultimately show ?thesis by blast
qed

text \<open>
  C5. With the converter modelled from the specification: the published cloud has one
  point for each raw laser return of the batch whose distance \<open>d\<close> satisfies
  \<open>minDistance \<le> d \<le> maxDistance\<close>, and no other point, in packet order, then chunk
  order, then laser order; the intensity channel is aligned with the points.
\<close>

theorem cloud_distance_filter:
  assumes "publish ext c n = Inr (Some cloud)"
  shows "points cloud =
           map (\<lambda>(l, rot). Point32 (mX (convertSingleReturn ext l rot (calibration n)))
                                   (mY (convertSingleReturn ext l rot (calibration n)))
                                   (mZ (convertSingleReturn ext l rot (calibration n))))
             (filter (\<lambda>(l, rot). minDistance n \<le> mDistance l \<and> mDistance l \<le> maxDistance n)
                (returns_of (dataPackets n)))
         \<and> channels cloud =
           [ChannelFloat32 ''intensity''
              (map (\<lambda>(l, rot). mIntensity (convertSingleReturn ext l rot (calibration n)))
                 (filter (\<lambda>(l, rot). minDistance n \<le> mDistance l \<and> mDistance l \<le> maxDistance n)
                    (returns_of (dataPackets n))))]"
  using assms
  by (auto simp add: publish_def Let_def foldl_toPointCloud split_beta o_def
      split: if_splits sum.splits)

text \<open>Thresholds 0.9 and 120, returns at 0.5, 1.0, 60.0 and 150.0: the points for 1.0
  and 60.0 are kept.\<close>

theorem cloud_distance_filter_witness:
  "publish ext0 1 (node2\<lparr>numDataPackets := 1, dataPackets := [synthetic_packet]\<rparr>) =
     Inr (Some \<lparr>header = \<lparr>stamp = \<lparr>sec = 0, nsec = 1000\<rparr>, frame_id = []\<rparr>,
                points = [Point32 1 0 0, Point32 60 0 0],
                channels = [ChannelFloat32 ''intensity'' [20, 30]]\<rparr>)
   \<and> points \<lparr>header = \<lparr>stamp = \<lparr>sec = 0, nsec = 1000\<rparr>, frame_id = []\<rparr>,
              points = [Point32 1 0 0, Point32 60 0 0],
              channels = [ChannelFloat32 ''intensity'' [20, 30]]\<rparr>
      = map (\<lambda>(l, rot). Point32 (mX (convertSingleReturn ext0 l rot 1))
                                 (mY (convertSingleReturn ext0 l rot 1))
                                 (mZ (convertSingleReturn ext0 l rot 1)))
             (filter (\<lambda>(l, rot). 0.9 \<le> mDistance l \<and> mDistance l \<le> 120)
                (returns_of [synthetic_packet]))"
proof -
  have p: "publish ext0 1 (node2\<lparr>numDataPackets := 1, dataPackets := [synthetic_packet]\<rparr>) =
     Inr (Some \<lparr>header = \<lparr>stamp = \<lparr>sec = 0, nsec = 1000\<rparr>, frame_id = []\<rparr>,
                points = [Point32 1 0 0, Point32 60 0 0],
                channels = [ChannelFloat32 ''intensity'' [20, 30]]\<rparr>)"
    by (simp add: publish_def synthetic_packet_def node2_def ext0_def toPointCloud_def
        stamp_nsec_def double_of_int_def round_to_double_def round_half_def Let_def fromNSec_def)
  from cloud_distance_filter[OF p] show ?thesis
    using p by (simp add: node2_def)
qed

text \<open>
  C6. A constructed node is inactive. A tick of an inactive node that observes a positive
  subscriber count activates it with exactly one \<^verbatim>\<open>subscribe\<close> call, for the input that
  \<^verbatim>\<open>use_binary_snappy\<close> selects; a tick of an active node that observes zero deactivates it
  and shuts that subscription down; every other tick changes nothing and makes no call.
  On the counts 0, 0, 1, 1, 0 an inactive node makes one \<^verbatim>\<open>subscribe\<close> call at the third tick,
  one \<^verbatim>\<open>shutdown\<close> call at the fifth, and no other call.
\<close>

theorem lifecycle_transitions:
  "(VelodynePostNode_ctor ext nh raw = Inr (n0, lg) \<longrightarrow> \<not> subscriptionIsActive n0)
   \<and> (\<not> subscriptionIsActive n \<and> 0 < c \<longrightarrow>
        updateSubscription c n = initSubscribers n
        \<and> subscriptionIsActive (fst (initSubscribers n))
        \<and> snd (initSubscribers n) =
            [if useBinarySnappy n
             then subscribe (velodyneBinarySnappyTopicName n) (queueDepth n) BinarySnappyCallback (transportHints n)
             else subscribe (velodyneDataPacketTopicName n) (queueDepth n) DataPacketCallback (transportHints n)])
   \<and> (subscriptionIsActive n \<and> c = 0 \<longrightarrow>
        updateSubscription c n = shutdownSubscribers n
        \<and> \<not> subscriptionIsActive (fst (shutdownSubscribers n))
        \<and> snd (shutdownSubscribers n) =
            [shutdown (if useBinarySnappy n then BinarySnappyCallback else DataPacketCallback)])
   \<and> (\<not> (\<not> subscriptionIsActive n \<and> 0 < c) \<and> \<not> (subscriptionIsActive n \<and> c = 0) \<longrightarrow>
        updateSubscription c n = (n, []))
   \<and> (\<not> subscriptionIsActive n \<longrightarrow>
        snd (ticks [0, 0, 1, 1, 0] n) =
          [[], [], snd (initSubscribers n), [], snd (shutdownSubscribers n)])"
proof -
  have 1: "VelodynePostNode_ctor ext nh raw = Inr (n0, lg) \<longrightarrow> \<not> subscriptionIsActive n0"
    using ctor_inactive by blast
  have 2: "\<not> subscriptionIsActive n \<and> 0 < c \<longrightarrow>
        updateSubscription c n = initSubscribers n
        \<and> subscriptionIsActive (fst (initSubscribers n))
        \<and> snd (initSubscribers n) =
            [if useBinarySnappy n
             then subscribe (velodyneBinarySnappyTopicName n) (queueDepth n) BinarySnappyCallback (transportHints n)
             else subscribe (velodyneDataPacketTopicName n) (queueDepth n) DataPacketCallback (transportHints n)]"
    by (auto simp add: updateSubscription_def initSubscribers_def)
  have 3: "subscriptionIsActive n \<and> c = 0 \<longrightarrow>
        updateSubscription c n = shutdownSubscribers n
        \<and> \<not> subscriptionIsActive (fst (shutdownSubscribers n))
        \<and> snd (shutdownSubscribers n) =
            [shutdown (if useBinarySnappy n then BinarySnappyCallback else DataPacketCallback)]"
    by (simp add: updateSubscription_def shutdownSubscribers_def)
  have 4: "\<not> (\<not> subscriptionIsActive n \<and> 0 < c) \<and> \<not> (subscriptionIsActive n \<and> c = 0) \<longrightarrow>
        updateSubscription c n = (n, [])"
    by (auto simp add: updateSubscription_def word_gt_0)
  have 5: "\<not> subscriptionIsActive n \<longrightarrow>
        snd (ticks [0, 0, 1, 1, 0] n) =
          [[], [], snd (initSubscribers n), [], snd (shutdownSubscribers n)]"
    by (simp add: updateSubscription_def initSubscribers_def shutdownSubscribers_def split_beta)
  from 1 2 3 4 5 show ?thesis by blast
qed

text \<open>The node built with default topics and \<^verbatim>\<open>use_binary_snappy\<close>.\<close>

theorem lifecycle_transitions_witness:
  "\<not> subscriptionIsActive node2
   \<and> snd (ticks [0, 0, 1, 1, 0] node2) =
       [[], [],
        [subscribe ''/velodyne/binary_snappy'' 100 BinarySnappyCallback [''UDP'', ''TCP'']],
        [],
        [shutdown BinarySnappyCallback]]
   \<and> updateSubscription 3 node2 = initSubscribers node2
   \<and> updateSubscription 0 (fst (initSubscribers node2)) = shutdownSubscribers (fst (initSubscribers node2))
   \<and> updateSubscription 0 node2 = (node2, [])"
proof -
  have a: "\<not> subscriptionIsActive node2" by (simp add: node2_def)
  have b: "subscriptionIsActive (fst (initSubscribers node2))"
    by (simp add: node2_def initSubscribers_def)
  have i: "snd (initSubscribers node2) =
      [subscribe ''/velodyne/binary_snappy'' 100 BinarySnappyCallback [''UDP'', ''TCP'']]"
    by (simp add: node2_def initSubscribers_def)
  have s: "snd (shutdownSubscribers node2) = [shutdown BinarySnappyCallback]"
    by (simp add: node2_def shutdownSubscribers_def)
  from lifecycle_transitions[of ext0 nh2 raw0 node2 "[]" node2 3] a
  have t3: "updateSubscription 3 node2 = initSubscribers node2" by simp
  from lifecycle_transitions[of ext0 nh2 raw0 node2 "[]" "fst (initSubscribers node2)" 0] b
  have t0: "updateSubscription 0 (fst (initSubscribers node2)) = shutdownSubscribers (fst (initSubscribers node2))"
    by blast
  from lifecycle_transitions[of ext0 nh2 raw0 node2 "[]" node2 0] a
  have t00: "updateSubscription 0 node2 = (node2, [])"
    and seq: "snd (ticks [0, 0, 1, 1, 0] node2) = [[], [], snd (initSubscribers node2), [], snd (shutdownSubscribers node2)]"
    by blast+
  from a t3 t0 t00 seq i s show ?thesis by (simp only: simp_thms)
qed




text \<open>
  C8. For a device name outside the two supported models \<open>getParameters\<close> logs the error
  and assigns neither the calibration file name nor the packet count (lemma
  \<open>getParameters_unknown_device\<close>). The constructor then passes the packet count, which
  nothing has assigned, to \<^verbatim>\<open>reserve\<close>. With the device name \<^verbatim>\<open>Velodyne VLP-16\<close> and storage
  whose leftover count is \<open>-1\<close>, \<^verbatim>\<open>reserve\<close> throws \<^verbatim>\<open>std::length_error\<close> out of the
  constructor: startup is aborted after the error has been logged.
\<close>

theorem unknown_device_startup:
  "VelodynePostNode_ctor ext0 nh_unknown_device raw0 =
     Inl (length_error, [ROS_ERROR ''Unknown device: Velodyne VLP-16'',
                         ROS_WARN ''IOException: cannot open''])"
  by (simp add: VelodynePostNode_ctor_def getParameters_def default_members_def ext0_def
      nh_unknown_device_def raw0_def param_double_def param_string_def param_bool_def
      param_int_def Let_def size_t_def reserve_def reliable_def unreliable_def)

text \<open>
  C9. For every node, whatever its configured count: every call of \<^verbatim>\<open>publish\<close> in a run
  of messages sees a batch that is not empty and whose size is the configured count,
  which is therefore at least 1, and no call reads the first or last element of an empty
  vector. A single delivery calls \<^verbatim>\<open>publish\<close> either not at all, or once, right after its
  append, with the appended batch.
\<close>

theorem publish_only_on_nonempty_batch:
  "list_all (\<lambda>call. batch call \<noteq> [] \<and> length (batch call) = size_t (numDataPackets n)
                  \<and> 1 \<le> size_t (numDataPackets n)
                  \<and> outcome call \<noteq> Inl EmptyVectorAccess) (snd (deliver_all ext es n))
   \<and> (snd (deliver ext (c, m) n) = []
      \<or> snd (deliver ext (c, m) n) =
           [PublishCall (dataPackets n @ [decode ext m])
              (publish ext c (n\<lparr>frameId := msg_frame_id m,
                                dataPackets := dataPackets n @ [decode ext m]\<rparr>))]
         \<and> length (dataPackets n @ [decode ext m]) = size_t (numDataPackets n))"
proof -
  have "list_all (\<lambda>call. batch call \<noteq> [] \<and> length (batch call) = size_t (numDataPackets n)
                  \<and> 1 \<le> size_t (numDataPackets n)
                  \<and> outcome call \<noteq> Inl EmptyVectorAccess) (snd (deliver_all ext es n))"
  proof (induction es arbitrary: n)
    case Nil
    then show ?case by simp
  next
    case (Cons e es)
    obtain n1 calls1 where d: "deliver ext e n = (n1, calls1)" by (cases "deliver ext e n")
    have k: "numDataPackets n1 = numDataPackets n"
      using deliver_numDataPackets[of ext e n] d by simp
    have "list_all (\<lambda>call. batch call \<noteq> [] \<and> length (batch call) = size_t (numDataPackets n)
                  \<and> outcome call \<noteq> Inl EmptyVectorAccess) calls1"
      using deliver_calls_nonempty_batch[of n ext e] d by simp
    moreover have "0 < size_t (numDataPackets n)"
      if "batch a \<noteq> []" and "length (batch a) = size_t (numDataPackets n)" for a
      using that by (metis length_greater_0_conv)
    ultimately have "list_all (\<lambda>call. batch call \<noteq> [] \<and> length (batch call) = size_t (numDataPackets n)
                  \<and> 1 \<le> size_t (numDataPackets n)
                  \<and> outcome call \<noteq> Inl EmptyVectorAccess) calls1"
      by (induction calls1) (auto simp add: Suc_le_eq)
    with Cons.IH[of n1] show ?case
      using d k by (simp add: split_beta)
  qed
  then show ?thesis by (simp add: deliver_eq)
qed

text \<open>A node that batches two packets, and nodes configured with the counts 0 and -1,
  which never publish.\<close>

theorem publish_only_on_nonempty_batch_witness:
  "list_all (\<lambda>call. batch call \<noteq> [] \<and> length (batch call) = 2 \<and> outcome call \<noteq> Inl EmptyVectorAccess)
     (snd (deliver_all ext0 es4 node2))
   \<and> snd (deliver ext0 (1, Raw (raw_msg 0 1000 ''a'')) (node2\<lparr>numDataPackets := 0\<rparr>)) = []
   \<and> snd (deliver ext0 (1, Raw (raw_msg 0 1000 ''a'')) (node2\<lparr>numDataPackets := - 1\<rparr>)) = []"
proof -
  have k: "size_t (numDataPackets node2) = 2" by (simp add: node2_def size_t_def)
  from publish_only_on_nonempty_batch[of node2 ext0 es4 1 "Raw (raw_msg 0 1000 ''a'')"]
  have "list_all (\<lambda>call. batch call \<noteq> [] \<and> length (batch call) = 2 \<and> 1 \<le> (2::nat)
                  \<and> outcome call \<noteq> Inl EmptyVectorAccess) (snd (deliver_all ext0 es4 node2))"
    unfolding k by blast
  then have a: "list_all (\<lambda>call. batch call \<noteq> [] \<and> length (batch call) = 2
                  \<and> outcome call \<noteq> Inl EmptyVectorAccess) (snd (deliver_all ext0 es4 node2))"
    by simp
  from publish_only_on_nonempty_batch[of "node2\<lparr>numDataPackets := 0\<rparr>" ext0 "[]" 1 "Raw (raw_msg 0 1000 ''a'')"]
  have b: "snd (deliver ext0 (1, Raw (raw_msg 0 1000 ''a'')) (node2\<lparr>numDataPackets := 0\<rparr>)) = []"
    by (simp add: node2_def size_t_def)
  from publish_only_on_nonempty_batch[of "node2\<lparr>numDataPackets := - 1\<rparr>" ext0 "[]" 1 "Raw (raw_msg 0 1000 ''a'')"]
  have c: "snd (deliver ext0 (1, Raw (raw_msg 0 1000 ''a'')) (node2\<lparr>numDataPackets := - 1\<rparr>)) = []"
    by (simp add: node2_def size_t_def)
  from a b c show ?thesis by blast
qed

text \<open>
  C10. Every delivered message, of either kind, stores the frame identifier of its header
  in the node; the node it leaves differs from the one it found in the frame identifier
  and the batch only; a cloud published by the callback carries the frame identifier of
  that message. For a compressed message this holds whatever \<^verbatim>\<open>snappy::Uncompress\<close>
  answers, in particular when it answers failure.
\<close>

theorem callback_frame:
  "frameId (fst (deliver ext (c, m) n)) = msg_frame_id m
   \<and> fst (deliver ext (c, m) n)
       = n\<lparr>frameId := msg_frame_id m, dataPackets := dataPackets (fst (deliver ext (c, m) n))\<rparr>
   \<and> list_all (\<lambda>call. case outcome call of Inr (Some cloud) \<Rightarrow> frame_id (header cloud) = msg_frame_id m
                                         | _ \<Rightarrow> True)
        (snd (deliver ext (c, m) n))
   \<and> frameId (fst (velodyneBinarySnappyCallback
                      (ext\<lparr>Uncompress := \<lambda>bs. (False, snd (Uncompress ext bs))\<rparr>) c smsg n))
       = frame_id (header smsg)"
proof -
  have "case publish ext c (n\<lparr>frameId := msg_frame_id m, dataPackets := dataPackets n @ [decode ext m]\<rparr>) of
          Inr (Some cloud) \<Rightarrow> frame_id (header cloud) = msg_frame_id m | _ \<Rightarrow> True"
    using publish_frame_id[of ext c "n\<lparr>frameId := msg_frame_id m, dataPackets := dataPackets n @ [decode ext m]\<rparr>"]
    by (auto split: sum.splits option.splits)
  then show ?thesis
    by (simp add: deliver_eq velodyneBinarySnappyCallback_def Let_def)
qed

text \<open>A compressed message whose decompression fails completes a batch: the frame
  identifier of the published cloud is the one of that message.\<close>

theorem callback_frame_witness:
  "fst (Uncompress ext0 (data (snappy_msg 0 2000 ''lidar'' []))) = False
   \<and> frameId (fst (deliver ext0 (1, Snappy (snappy_msg 0 2000 ''lidar'' [])) node2)) = ''lidar''
   \<and> list_all (\<lambda>call. case outcome call of Inr (Some cloud) \<Rightarrow> frame_id (header cloud) = ''lidar''
                                         | _ \<Rightarrow> True)
        (snd (deliver ext0 (1, Snappy (snappy_msg 0 2000 ''lidar'' [])) (node2\<lparr>dataPackets := [pkt 1000]\<rparr>)))
   \<and> snd (deliver ext0 (1, Snappy (snappy_msg 0 2000 ''lidar'' [])) (node2\<lparr>dataPackets := [pkt 1000]\<rparr>)) \<noteq> []"
proof -
  have f: "msg_frame_id (Snappy (snappy_msg 0 2000 ''lidar'' [])) = ''lidar''"
    by (simp add: snappy_msg_def)
  have u: "fst (Uncompress ext0 (data (snappy_msg 0 2000 ''lidar'' []))) = False"
    by (simp add: ext0_def snappy_msg_def)
  from callback_frame[of ext0 1 "Snappy (snappy_msg 0 2000 ''lidar'' [])" node2]
  have a: "frameId (fst (deliver ext0 (1, Snappy (snappy_msg 0 2000 ''lidar'' [])) node2)) = ''lidar''"
    unfolding f by blast
  from callback_frame[of ext0 1 "Snappy (snappy_msg 0 2000 ''lidar'' [])" "node2\<lparr>dataPackets := [pkt 1000]\<rparr>"]
  have b: "list_all (\<lambda>call. case outcome call of Inr (Some cloud) \<Rightarrow> frame_id (header cloud) = ''lidar''
                                         | _ \<Rightarrow> True)
        (snd (deliver ext0 (1, Snappy (snappy_msg 0 2000 ''lidar'' [])) (node2\<lparr>dataPackets := [pkt 1000]\<rparr>)))"
    unfolding f by blast
  have c: "snd (deliver ext0 (1, Snappy (snappy_msg 0 2000 ''lidar'' [])) (node2\<lparr>dataPackets := [pkt 1000]\<rparr>)) \<noteq> []"
    by (simp add: deliver_eq node2_def size_t_def)
  from u a b c show ?thesis by blast
qed

end
